theory Spec2Isabelle
  imports Complex_Main "HOL-Library.Word"
begin

section \<open>Python values used by the IMU tools\<close>

text \<open>
  The four scripts (\<^verbatim>\<open>imu_calibration/serial_capture.py\<close>,
  \<^verbatim>\<open>imudata2/accely/serial_capture.py\<close>, \<^verbatim>\<open>imu_calibration/imu_data_process.py\<close>
  and \<^verbatim>\<open>imu_calibration/process_imu.py\<close>) define functions of the same names, so every
  constant below carries a prefix naming its script: \<open>sc_\<close>, \<open>acc_\<close>, \<open>idp_\<close> and \<open>pi_\<close>.

  A Python \<^verbatim>\<open>bytes\<close> value is a list of 8-bit words, a Python \<^verbatim>\<open>str\<close> a list of Unicode
  code points. Python floats are modelled by the real numbers: rounding, overflow,
  infinities and NaN are outside the model. Exceptions are values of \<open>py_error\<close>.
\<close>

type_synonym byte = "8 word"
type_synonym pystr = "nat list"

datatype py_error =
    ValueError
  | IndexError
  | ZeroDivisionError
  | StopIteration
  | UnicodeDecodeError
  | SerialException
  | SystemExit nat

definition str_of :: "string \<Rightarrow> pystr" where
  "str_of s = map of_char s"

subsection \<open>String methods\<close>

text \<open>\<^verbatim>\<open>str.isspace\<close> for one code point: the characters \<^verbatim>\<open>str.strip()\<close> removes.\<close>

definition isspace :: "nat \<Rightarrow> bool" where
  "isspace c \<longleftrightarrow>
     (9 \<le> c \<and> c \<le> 13) \<or> (28 \<le> c \<and> c \<le> 32) \<or> c = 133 \<or> c = 160 \<or> c = 5760 \<or>
     (8192 \<le> c \<and> c \<le> 8202) \<or> c = 8232 \<or> c = 8233 \<or> c = 8239 \<or> c = 8287 \<or> c = 12288"

definition py_strip :: "pystr \<Rightarrow> pystr" where
  "py_strip s = rev (dropWhile isspace (rev (dropWhile isspace s)))"

definition startswith :: "pystr \<Rightarrow> pystr \<Rightarrow> bool" where
  "startswith s p \<longleftrightarrow> take (length p) s = p"

text \<open>\<^verbatim>\<open>s.split(sep)\<close> for a non-empty separator: one more part than occurrences of \<open>sep\<close>,
  found left to right without overlap.\<close>

fun py_split :: "pystr \<Rightarrow> pystr \<Rightarrow> pystr list" where
  "py_split sep [] = [[]]"
| "py_split sep (c # cs) =
     (if sep \<noteq> [] \<and> take (length sep) (c # cs) = sep
      then [] # py_split sep (drop (length sep - 1) cs)
      else (case py_split sep cs of [] \<Rightarrow> [[c]] | w # ws \<Rightarrow> (c # w) # ws))"

text \<open>\<^verbatim>\<open>s.replace(old, new)\<close> for a non-empty \<open>old\<close>.\<close>

fun py_replace :: "pystr \<Rightarrow> pystr \<Rightarrow> pystr \<Rightarrow> pystr" where
  "py_replace old new [] = []"
| "py_replace old new (c # cs) =
     (if old \<noteq> [] \<and> take (length old) (c # cs) = old
      then new @ py_replace old new (drop (length old - 1) cs)
      else c # py_replace old new cs)"

text \<open>\<^verbatim>\<open>xs[i]\<close> for \<open>i \<ge> 0\<close>: \<^verbatim>\<open>IndexError\<close> out of range.\<close>

definition py_index :: "'a list \<Rightarrow> nat \<Rightarrow> py_error + 'a" where
  "py_index xs i = (if i < length xs then Inr (xs ! i) else Inl IndexError)"

subsection \<open>The builtins \<^verbatim>\<open>int()\<close> and \<^verbatim>\<open>float()\<close> on strings\<close>

text \<open>
  Both builtins first turn every decimal digit of Unicode into its ASCII digit and every
  whitespace character outside ASCII into a space, then strip the ASCII whitespace
  (space, tab, line feed, vertical tab, form feed, carriage return) from both ends. The
  separators U+001C to U+001F, which \<^verbatim>\<open>str.strip()\<close> removes, are not whitespace here.
\<close>

definition numeric_space :: "nat \<Rightarrow> bool" where
  "numeric_space c \<longleftrightarrow>
     (9 \<le> c \<and> c \<le> 13) \<or> c = 32 \<or> c = 133 \<or> c = 160 \<or> c = 5760 \<or>
     (8192 \<le> c \<and> c \<le> 8202) \<or> c = 8232 \<or> c = 8233 \<or> c = 8239 \<or> c = 8287 \<or> c = 12288"

definition numeric_strip :: "pystr \<Rightarrow> pystr" where
  "numeric_strip s = rev (dropWhile numeric_space (rev (dropWhile numeric_space s)))"

text \<open>The decimal digits (category Nd) of Unicode 14.0, the database of CPython 3.11: 66
  runs of ten code points, each run the digits 0 to 9 of one script; the list gives where
  each run starts.\<close>

definition digit_blocks :: "nat list" where
  "digit_blocks =
     [48, 1632, 1776, 1984, 2406, 2534, 2662, 2790, 2918, 3046,
      3174, 3302, 3430, 3558, 3664, 3792, 3872, 4160, 4240, 6112,
      6160, 6470, 6608, 6784, 6800, 6992, 7088, 7232, 7248, 42528,
      43216, 43264, 43472, 43504, 43600, 44016, 65296, 66720, 68912, 69734,
      69872, 69942, 70096, 70384, 70736, 70864, 71248, 71360, 71472, 71904,
      72016, 72784, 73040, 73120, 92768, 92864, 93008, 120782, 120792, 120802,
      120812, 120822, 123200, 123632, 125264, 130032]"

definition decimal_digit :: "nat \<Rightarrow> nat option" where
  "decimal_digit c =
     (case filter (\<lambda>b. b \<le> c \<and> c < b + 10) digit_blocks of
        [] \<Rightarrow> None
      | b # _ \<Rightarrow> Some (c - b))"

text \<open>Digits, where single underscores may separate two digits.\<close>

fun digitpart :: "pystr \<Rightarrow> nat list option" where
  "digitpart [] = None"
| "digitpart [c] = map_option (\<lambda>v. [v]) (decimal_digit c)"
| "digitpart (c # d # cs) =
     (case decimal_digit c of
        None \<Rightarrow> None
      | Some v \<Rightarrow>
          if d = 95 then map_option (Cons v) (digitpart cs)
          else map_option (Cons v) (digitpart (d # cs)))"

definition digits_value :: "nat list \<Rightarrow> nat" where
  "digits_value ds = foldl (\<lambda>a d. 10 * a + d) 0 ds"

definition split_sign :: "pystr \<Rightarrow> int \<times> pystr" where
  "split_sign s =
     (case s of
        [] \<Rightarrow> (1, [])
      | c # cs \<Rightarrow> if c = 45 then (- 1, cs) else if c = 43 then (1, cs) else (1, c # cs))"

text \<open>\<^verbatim>\<open>int(s)\<close>: an optional sign and digits. CPython 3.11 refuses with \<^verbatim>\<open>ValueError\<close> a
  string of more digits than \<^verbatim>\<open>sys.get_int_max_str_digits()\<close>, 4300 unless the interpreter
  is configured otherwise; leading zeros count, underscores do not.\<close>

definition int_max_str_digits :: nat where
  "int_max_str_digits = 4300"

definition py_int :: "pystr \<Rightarrow> py_error + int" where
  "py_int s =
     (case split_sign (numeric_strip s) of (sg, body) \<Rightarrow>
        (case digitpart body of
           None \<Rightarrow> Inl ValueError
         | Some ds \<Rightarrow>
             if int_max_str_digits < length ds then Inl ValueError
             else Inr (sg * int (digits_value ds))))"

text \<open>The mantissa \<open>i.f\<close>: at least one of \<open>i\<close> and \<open>f\<close> has digits. The result is the
  digit string \<open>i f\<close> and the number of fraction digits.\<close>

definition mantissa :: "pystr \<Rightarrow> (nat list \<times> nat) option" where
  "mantissa m =
     (let ip = takeWhile (\<lambda>c. c \<noteq> 46) m; rest = dropWhile (\<lambda>c. c \<noteq> 46) m in
      case rest of
        [] \<Rightarrow> map_option (\<lambda>ds. (ds, 0)) (digitpart ip)
      | dot # fp \<Rightarrow>
          if ip = [] then map_option (\<lambda>fs. (fs, length fs)) (digitpart fp)
          else if fp = [] then map_option (\<lambda>ds. (ds, 0)) (digitpart ip)
          else (case (digitpart ip, digitpart fp) of
                  (Some ds, Some fs) \<Rightarrow> Some (ds @ fs, length fs)
                | _ \<Rightarrow> None))"

definition exponent :: "pystr \<Rightarrow> int option" where
  "exponent e =
     (case e of
        [] \<Rightarrow> Some 0
      | _ # ex \<Rightarrow>
          (case split_sign ex of (sg, body) \<Rightarrow>
             map_option (\<lambda>ds. sg * int (digits_value ds)) (digitpart body)))"

definition scale10 :: "real \<Rightarrow> int \<Rightarrow> real" where
  "scale10 x e = (if 0 \<le> e then x * 10 ^ nat e else x / 10 ^ nat (- e))"

text \<open>
  \<^verbatim>\<open>float(s)\<close> accepts, after the sign, the words \<^verbatim>\<open>inf\<close>, \<^verbatim>\<open>infinity\<close> and \<^verbatim>\<open>nan\<close> in any
  mix of upper and lower case. The reals have no value for a non-finite float:
  \<open>non_finite_stand_in\<close> takes its place. The scripts never compare a sensor value or
  branch on one, so which lines are accepted, and every count, index and timestamp, do
  not depend on the stand-in.
\<close>

definition lower :: "nat \<Rightarrow> nat" where
  "lower c = (if 65 \<le> c \<and> c \<le> 90 then c + 32 else c)"

definition non_finite_literal :: "pystr \<Rightarrow> bool" where
  "non_finite_literal body \<longleftrightarrow>
     map lower body = str_of ''inf'' \<or> map lower body = str_of ''infinity'' \<or>
     map lower body = str_of ''nan''"

definition non_finite_stand_in :: real where
  "non_finite_stand_in = 0"

text \<open>\<^verbatim>\<open>float(s)\<close>: an optional sign, then a non-finite word or a mantissa with an optional
  exponent.\<close>

definition py_float :: "pystr \<Rightarrow> py_error + real" where
  "py_float s =
     (case split_sign (numeric_strip s) of (sg, body) \<Rightarrow>
        if non_finite_literal body then Inr non_finite_stand_in
        else
          (let m = takeWhile (\<lambda>c. c \<noteq> 101 \<and> c \<noteq> 69) body;
               e = dropWhile (\<lambda>c. c \<noteq> 101 \<and> c \<noteq> 69) body in
           case (mantissa m, exponent e) of
             (Some (ds, k), Some ex) \<Rightarrow>
               Inr (of_int sg * scale10 (real (digits_value ds)) (ex - int k))
           | _ \<Rightarrow> Inl ValueError))"

subsection \<open>Sequencing of computations that may raise\<close>

definition bnd :: "'e + 'a \<Rightarrow> ('a \<Rightarrow> 'e + 'b) \<Rightarrow> 'e + 'b" where
  "bnd m f = (case m of Inl e \<Rightarrow> Inl e | Inr x \<Rightarrow> f x)"

text \<open>A list display \<^verbatim>\<open>[e0, e1, ...]\<close> whose elements may raise: evaluated left to right,
  the first exception wins.\<close>

fun in_order :: "('e + 'a) list \<Rightarrow> 'e + 'a list" where
  "in_order [] = Inr []"
| "in_order (m # ms) = bnd m (\<lambda>x. bnd (in_order ms) (\<lambda>xs. Inr (x # xs)))"

section \<open>The line framer of the two capture scripts\<close>

subsection \<open>Decoding\<close>

text \<open>The strict UTF-8 codec: shortest forms only, no surrogates, nothing above
  U+10FFFF. A malformed span raises \<^verbatim>\<open>UnicodeDecodeError\<close>.\<close>

definition cont :: "byte \<Rightarrow> bool" where
  "cont b \<longleftrightarrow> 0x80 \<le> b \<and> b \<le> 0xBF"

definition second_ok :: "byte \<Rightarrow> byte \<Rightarrow> bool" where
  "second_ok b b1 \<longleftrightarrow>
     (if b = 0xE0 then 0xA0 \<le> b1 \<and> b1 \<le> 0xBF
      else if b = 0xED then 0x80 \<le> b1 \<and> b1 \<le> 0x9F
      else if b = 0xF0 then 0x90 \<le> b1 \<and> b1 \<le> 0xBF
      else if b = 0xF4 then 0x80 \<le> b1 \<and> b1 \<le> 0x8F
      else cont b1)"

fun utf8_decode :: "byte list \<Rightarrow> py_error + pystr" where
  "utf8_decode [] = Inr []"
| "utf8_decode (b # bs) =
     (if b < 0x80 then bnd (utf8_decode bs) (\<lambda>s. Inr (unat b # s))
      else if 0xC2 \<le> b \<and> b \<le> 0xDF then
        (case bs of
           b1 # r \<Rightarrow>
             if cont b1
             then bnd (utf8_decode r)
                    (\<lambda>s. Inr (((unat b - 0xC0) * 64 + (unat b1 - 0x80)) # s))
             else Inl UnicodeDecodeError
         | _ \<Rightarrow> Inl UnicodeDecodeError)
      else if 0xE0 \<le> b \<and> b \<le> 0xEF then
        (case bs of
           b1 # b2 # r \<Rightarrow>
             if second_ok b b1 \<and> cont b2
             then bnd (utf8_decode r)
                    (\<lambda>s. Inr (((unat b - 0xE0) * 4096 + (unat b1 - 0x80) * 64
                                 + (unat b2 - 0x80)) # s))
             else Inl UnicodeDecodeError
         | _ \<Rightarrow> Inl UnicodeDecodeError)
      else if 0xF0 \<le> b \<and> b \<le> 0xF4 then
        (case bs of
           b1 # b2 # b3 # r \<Rightarrow>
             if second_ok b b1 \<and> cont b2 \<and> cont b3
             then bnd (utf8_decode r)
                    (\<lambda>s. Inr (((unat b - 0xF0) * 262144 + (unat b1 - 0x80) * 4096
                                 + (unat b2 - 0x80) * 64 + (unat b3 - 0x80)) # s))
             else Inl UnicodeDecodeError
         | _ \<Rightarrow> Inl UnicodeDecodeError)
      else Inl UnicodeDecodeError)"

text \<open>ISO-8859-1: every byte is the code point of the same number, and back.\<close>

definition latin1_decode :: "byte list \<Rightarrow> pystr" where
  "latin1_decode bs = map unat bs"

definition latin1_encode :: "pystr \<Rightarrow> py_error + byte list" where
  "latin1_encode s = (if list_all (\<lambda>c. c < 256) s then Inr (map of_nat s) else Inl ValueError)"

text \<open>
  \<^verbatim>\<open>try: line = buffer[:line_end].decode("utf-8").strip()\<close>
  \<^verbatim>\<open>except UnicodeDecodeError: line = buffer[:line_end].decode("ISO-8859-1").strip()\<close>
  Any other exception of the first decoding would leave the handler.
\<close>

definition decode_line :: "byte list \<Rightarrow> py_error + pystr" where
  "decode_line bs =
     (case utf8_decode bs of
        Inr s \<Rightarrow> Inr (py_strip s)
      | Inl e \<Rightarrow>
          if e = UnicodeDecodeError then Inr (py_strip (latin1_decode bs)) else Inl e)"

subsection \<open>Draining the buffer\<close>

text \<open>\<^verbatim>\<open>buffer.index(b'\n')\<close>, called only while the buffer holds a newline.\<close>

definition newline :: byte where
  "newline = 0x0A"

definition index_newline :: "byte list \<Rightarrow> nat" where
  "index_newline buffer = length (takeWhile (\<lambda>b. b \<noteq> newline) buffer)"

text \<open>
  The inner loop \<^verbatim>\<open>while b'\n' in buffer\<close>: cut the span before the first newline, decode
  it, delete span and newline from the buffer, and hand the line to the rest of the loop
  body, here the parameter \<open>h\<close> acting on the collected data \<open>st\<close>.
\<close>

function drain :: "('s \<Rightarrow> pystr \<Rightarrow> 's) \<Rightarrow> byte list \<Rightarrow> 's \<Rightarrow> py_error + (byte list \<times> 's)" where
  "drain h buffer st =
     (if newline \<in> set buffer then
        (let line_end = index_newline buffer in
         case decode_line (take line_end buffer) of
           Inl e \<Rightarrow> Inl e
         | Inr line \<Rightarrow> drain h (drop (line_end + 1) buffer) (h st line))
      else Inr (buffer, st))"
  by pat_completeness auto
termination
  by (relation "measure (\<lambda>(h, buffer, st). length buffer)")
    (auto dest: length_pos_if_in_set)

text \<open>One pass of the outer loop body after the read:
  \<^verbatim>\<open>if data: buffer.extend(data); while ...\<close>.\<close>

definition feed :: "('s \<Rightarrow> pystr \<Rightarrow> 's) \<Rightarrow> byte list \<Rightarrow> byte list \<times> 's \<Rightarrow> py_error + (byte list \<times> 's)" where
  "feed h data bs =
     (case bs of (buffer, st) \<Rightarrow>
        if data \<noteq> [] then drain h (buffer @ data) st else Inr (buffer, st))"

fun feed_all :: "('s \<Rightarrow> pystr \<Rightarrow> 's) \<Rightarrow> byte list list \<Rightarrow> byte list \<times> 's \<Rightarrow> py_error + (byte list \<times> 's)" where
  "feed_all h [] bs = Inr bs"
| "feed_all h (data # chunks) bs = bnd (feed h data bs) (feed_all h chunks)"

text \<open>The decoded lines a sequence of chunks yields: the handler that records each line.\<close>

definition record_line :: "pystr list \<Rightarrow> pystr \<Rightarrow> pystr list" where
  "record_line seen line = seen @ [line]"

definition decoded_lines :: "byte list list \<Rightarrow> py_error + pystr list" where
  "decoded_lines chunks = bnd (feed_all record_line chunks ([], [])) (\<lambda>(buffer, seen). Inr seen)"

section \<open>The serial port and the acquisition loop\<close>

text \<open>
  The port is scripted: \<open>incoming\<close> lists what the successive calls of \<^verbatim>\<open>ser.read_all()\<close>
  will find, a block of bytes or a transport fault (\<^verbatim>\<open>serial.SerialException\<close>). When
  the script is used up a read returns no bytes. A read consumes its entry.
\<close>

datatype read_event = Bytes "byte list" | Fault

record serial_port =
  is_open :: bool
  incoming :: "read_event list"

definition read_all :: "serial_port \<Rightarrow> (py_error + byte list) \<times> serial_port" where
  "read_all ser =
     (case incoming ser of
        [] \<Rightarrow> (Inr [], ser)
      | Bytes data # later \<Rightarrow> (Inr data, ser\<lparr>incoming := later\<rparr>)
      | Fault # later \<Rightarrow> (Inl SerialException, ser\<lparr>incoming := later\<rparr>))"

text \<open>\<^verbatim>\<open>if 'ser' in locals() and ser.is_open: ser.close()\<close>; \<open>None\<close> is a port that
  \<^verbatim>\<open>serial.Serial(...)\<close> never created.\<close>

definition release :: "serial_port option \<Rightarrow> serial_port option" where
  "release p =
     (case p of
        None \<Rightarrow> None
      | Some ser \<Rightarrow> if is_open ser then Some (ser\<lparr>is_open := False\<rparr>) else Some ser)"

text \<open>
  \<^verbatim>\<open>while datetime.now() < end_time\<close>: the wall clock admits some number \<open>polls\<close> of passes,
  the first argument. A pass reads, and feeds what it read to the framer. An exception
  ends the loop at once.
\<close>

fun capture_loop ::
  "('s \<Rightarrow> pystr \<Rightarrow> 's) \<Rightarrow> nat \<Rightarrow> serial_port \<Rightarrow> byte list \<Rightarrow> 's \<Rightarrow> (py_error + 's) \<times> serial_port" where
  "capture_loop h 0 ser buffer st = (Inr st, ser)"
| "capture_loop h (Suc polls) ser buffer st =
     (case read_all ser of
        (Inl e, ser') \<Rightarrow> (Inl e, ser')
      | (Inr data, ser') \<Rightarrow>
          (case feed h data (buffer, st) of
             Inl e \<Rightarrow> (Inl e, ser')
           | Inr (buffer', st') \<Rightarrow> capture_loop h polls ser' buffer' st'))"

text \<open>
  The frame shared by both \<^verbatim>\<open>capture_serial_data\<close>:
  \<^verbatim>\<open>try: ser = serial.Serial(...); <loop>; return <data>\<close>
  \<^verbatim>\<open>except serial.SerialException: sys.exit(1)\<close>
  \<^verbatim>\<open>finally: <release>\<close>
  \<open>port_ok\<close> says whether opening the port succeeds; \<open>ret\<close> builds the returned tuple.
\<close>

definition capture_frame ::
  "('s \<Rightarrow> pystr \<Rightarrow> 's) \<Rightarrow> 's \<Rightarrow> ('s \<Rightarrow> 'r) \<Rightarrow> bool \<Rightarrow> nat \<Rightarrow> read_event list
     \<Rightarrow> (py_error + 'r) \<times> serial_port option" where
  "capture_frame h init ret port_ok polls events =
     (if \<not> port_ok then (Inl (SystemExit 1), release None)
      else
        (case capture_loop h polls \<lparr>is_open = True, incoming = events\<rparr> [] init of
           (Inl e, ser) \<Rightarrow>
             (if e = SerialException then Inl (SystemExit 1) else Inl e, release (Some ser))
         | (Inr st, ser) \<Rightarrow> (Inr (ret st), release (Some ser))))"

subsection \<open>Records\<close>

text \<open>A captured row \<^verbatim>\<open>accel + gyro + [temp]\<close> holds six floats and an integer.\<close>

datatype pyval = PyFloat real | PyInt int

definition field_float :: "pystr list \<Rightarrow> nat \<Rightarrow> py_error + real" where
  "field_float parts i = bnd (py_index parts i) py_float"

definition field_int :: "pystr list \<Rightarrow> nat \<Rightarrow> py_error + int" where
  "field_int parts i = bnd (py_index parts i) py_int"

text \<open>
  \<^verbatim>\<open>parts = line.split(',')\<close>
  \<^verbatim>\<open>accel = [float(parts[0]), float(parts[1]), float(parts[2])]\<close>
  \<^verbatim>\<open>gyro = [float(parts[3]), float(parts[4]), float(parts[5])]\<close>
  \<^verbatim>\<open>temp = int(parts[6])\<close>
\<close>

definition parse_sensor :: "pystr \<Rightarrow> py_error + pyval list" where
  "parse_sensor line =
     (let parts = py_split (str_of '','') line in
      bnd (in_order (map (field_float parts) [0, 1, 2])) (\<lambda>accel.
      bnd (in_order (map (field_float parts) [3, 4, 5])) (\<lambda>gyro.
      bnd (field_int parts 6) (\<lambda>temp.
      Inr (map PyFloat accel @ map PyFloat gyro @ [PyInt temp])))))"

text \<open>
  \<^verbatim>\<open>parts = line.replace("Quaternion: ", "").split(', ')\<close>
  \<^verbatim>\<open>w = float(parts[0].split('=')[1])\<close> and so on for \<open>x\<close>, \<open>y\<close>, \<open>z\<close>.
\<close>

definition quat_field :: "pystr list \<Rightarrow> nat \<Rightarrow> py_error + real" where
  "quat_field parts i =
     bnd (py_index parts i) (\<lambda>p. bnd (py_index (py_split (str_of ''='') p) 1) py_float)"

definition parse_quaternion :: "pystr \<Rightarrow> py_error + real list" where
  "parse_quaternion line =
     (let parts = py_split (str_of '', '') (py_replace (str_of ''Quaternion: '') [] line) in
      in_order (map (quat_field parts) [0, 1, 2, 3]))"

subsection \<open>\<^verbatim>\<open>imu_calibration/serial_capture.py\<close>\<close>

record sc_state =
  sc_raw_data :: "pyval list list"
  sc_filtered_data :: "pyval list list"
  sc_quat_data :: "real list list"
  sc_invalid_count :: nat

definition sc_init :: sc_state where
  "sc_init = \<lparr>sc_raw_data = [], sc_filtered_data = [], sc_quat_data = [], sc_invalid_count = 0\<rparr>"

text \<open>The body of the inner loop after the line is decoded. \<^verbatim>\<open>except Exception\<close> and
  \<^verbatim>\<open>except (ValueError, IndexError)\<close> catch whatever the two parsers raise.\<close>

definition sc_handle_line :: "sc_state \<Rightarrow> pystr \<Rightarrow> sc_state" where
  "sc_handle_line st line =
     (if startswith line (str_of ''Quaternion:'') then
        (case parse_quaternion line of
           Inr q \<Rightarrow> st\<lparr>sc_quat_data := sc_quat_data st @ [q]\<rparr>
         | Inl e \<Rightarrow> st\<lparr>sc_invalid_count := sc_invalid_count st + 1\<rparr>)
      else if count_list line 44 = 6 then
        (case parse_sensor line of
           Inr row \<Rightarrow>
             st\<lparr>sc_raw_data := sc_raw_data st @ [row],
                sc_filtered_data := sc_filtered_data st @ [row]\<rparr>
         | Inl e \<Rightarrow> st\<lparr>sc_invalid_count := sc_invalid_count st + 1\<rparr>)
      else st\<lparr>sc_invalid_count := sc_invalid_count st + 1\<rparr>)"

definition sc_return ::
  "sc_state \<Rightarrow> pyval list list \<times> pyval list list \<times> real list list \<times> nat" where
  "sc_return st = (sc_raw_data st, sc_filtered_data st, sc_quat_data st, sc_invalid_count st)"

definition sc_capture_serial_data ::
  "bool \<Rightarrow> nat \<Rightarrow> read_event list
     \<Rightarrow> (py_error + pyval list list \<times> pyval list list \<times> real list list \<times> nat) \<times> serial_port option" where
  "sc_capture_serial_data = capture_frame sc_handle_line sc_init sc_return"

text \<open>
  What \<^verbatim>\<open>save_imu_data\<close> writes after the header, one list per row:
  \<^verbatim>\<open>formatted = [*raw_data[i][:3], *raw_data[i][3:6], raw_data[i][6],\<close>
  \<^verbatim>\<open>    *map(lambda x: f"{x:.2f}", filtered_data[i][:3]),\<close>
  \<^verbatim>\<open>    *map(lambda x: f"{x:.2f}", filtered_data[i][3:6]), filtered_data[i][6]]\<close>
  A cell is a value handed to the writer as it is, or the text of a number formatted
  with two decimals. The formatter is the parameter \<open>fmt\<close>; the one of the script is
  \<open>py_format_2f\<close> below. Slices never raise; the two reads at index 6 do on a shorter row.
\<close>

datatype csv_cell = Value pyval | Text2f string

definition format_2f :: "(real \<Rightarrow> string) \<Rightarrow> pyval \<Rightarrow> csv_cell" where
  "format_2f fmt v = Text2f (fmt (case v of PyFloat x \<Rightarrow> x | PyInt n \<Rightarrow> real_of_int n))"

definition sc_formatted :: "(real \<Rightarrow> string) \<Rightarrow> pyval list \<Rightarrow> pyval list \<Rightarrow> py_error + csv_cell list" where
  "sc_formatted fmt r f =
     bnd (py_index r 6) (\<lambda>rt.
     bnd (py_index f 6) (\<lambda>ft.
     Inr (map Value (take 3 r) @ map Value (take 3 (drop 3 r)) @ [Value rt] @
          map (format_2f fmt) (take 3 f) @ map (format_2f fmt) (take 3 (drop 3 f)) @ [Value ft])))"

definition sc_save_imu_data ::
  "(real \<Rightarrow> string) \<Rightarrow> pyval list list \<Rightarrow> pyval list list \<Rightarrow> py_error + csv_cell list list" where
  "sc_save_imu_data fmt raw_data filtered_data =
     in_order (map (\<lambda>(r, f). sc_formatted fmt r f) (zip raw_data filtered_data))"

text \<open>
  What \<^verbatim>\<open>f"{x:.2f}"\<close> gives for a real \<open>x\<close>: a minus sign when \<open>x\<close> is negative, then the
  absolute value rounded to hundredths, a tie going to the even neighbour, written with
  its integer part, a point and two decimals (\<^verbatim>\<open>1.234\<close> gives \<^verbatim>\<open>1.23\<close>, \<^verbatim>\<open>0.125\<close> gives
  \<^verbatim>\<open>0.12\<close>, \<^verbatim>\<open>25\<close> gives \<^verbatim>\<open>25.00\<close>). Python rounds the binary value of the float, which
  is the decimal literal only up to the rounding left outside the model.
\<close>

definition digit_char :: "nat \<Rightarrow> char" where
  "digit_char d = ''0123456789'' ! d"

function decimal_string :: "nat \<Rightarrow> string" where
  "decimal_string n =
     (if n < 10 then [digit_char n] else decimal_string (n div 10) @ [digit_char (n mod 10)])"
  by pat_completeness auto
termination
  by (relation "measure (\<lambda>n. n)") auto

definition round_half_even :: "real \<Rightarrow> nat" where
  "round_half_even y =
     (let f = \<lfloor>y\<rfloor>; r = y - of_int f in
      nat (if r < 1 / 2 then f else if 1 / 2 < r then f + 1 else if even f then f else f + 1))"

definition py_format_2f :: "real \<Rightarrow> string" where
  "py_format_2f x =
     (let n = round_half_even (\<bar>x\<bar> * 100) in
      (if x < 0 then ''-'' else []) @ decimal_string (n div 100) @ ''.'' @
      [digit_char (n mod 100 div 10), digit_char (n mod 10)])"

subsection \<open>\<^verbatim>\<open>imudata2/accely/serial_capture.py\<close>\<close>

record acc_state =
  acc_raw_data :: "pyval list list"
  acc_invalid_count :: nat

definition acc_init :: acc_state where
  "acc_init = \<lparr>acc_raw_data = [], acc_invalid_count = 0\<rparr>"

definition acc_handle_line :: "acc_state \<Rightarrow> pystr \<Rightarrow> acc_state" where
  "acc_handle_line st line =
     (if count_list line 44 = 6 then
        (case parse_sensor line of
           Inr row \<Rightarrow> st\<lparr>acc_raw_data := acc_raw_data st @ [row]\<rparr>
         | Inl e \<Rightarrow> st\<lparr>acc_invalid_count := acc_invalid_count st + 1\<rparr>)
      else st\<lparr>acc_invalid_count := acc_invalid_count st + 1\<rparr>)"

definition acc_return :: "acc_state \<Rightarrow> pyval list list \<times> nat" where
  "acc_return st = (acc_raw_data st, acc_invalid_count st)"

definition acc_capture_serial_data ::
  "bool \<Rightarrow> nat \<Rightarrow> read_event list \<Rightarrow> (py_error + pyval list list \<times> nat) \<times> serial_port option" where
  "acc_capture_serial_data = capture_frame acc_handle_line acc_init acc_return"

section \<open>The two batch processors\<close>

subsection \<open>Calibration, statistics and temperature windows\<close>

text \<open>The dictionary \<^verbatim>\<open>load_calibration\<close> returns. Reading it from disk is not modelled; the
  lists may be shorter than three entries, and indexing them then raises.\<close>

record calibration =
  accel_bias :: "real list"
  accel_scale :: "real list"
  gyro_bias :: "real list"

definition default_calibration :: calibration where
  "default_calibration = \<lparr>accel_bias = [0, 0, 0], accel_scale = [1, 1, 1], gyro_bias = [0, 0, 0]\<rparr>"

text \<open>\<^verbatim>\<open>(raw[i] - calib['accel_bias'][i]) * calib['accel_scale'][i]\<close> and
  \<^verbatim>\<open>raw[j] - calib['gyro_bias'][i]\<close>.\<close>

definition cal_accel :: "calibration \<Rightarrow> real list \<Rightarrow> nat \<Rightarrow> py_error + real" where
  "cal_accel calib raw i =
     bnd (py_index raw i) (\<lambda>a.
     bnd (py_index (accel_bias calib) i) (\<lambda>b.
     bnd (py_index (accel_scale calib) i) (\<lambda>k. Inr ((a - b) * k))))"

definition cal_gyro :: "calibration \<Rightarrow> real list \<Rightarrow> nat \<Rightarrow> nat \<Rightarrow> py_error + real" where
  "cal_gyro calib raw j i =
     bnd (py_index raw j) (\<lambda>g.
     bnd (py_index (gyro_bias calib) i) (\<lambda>b. Inr (g - b)))"

text \<open>\<^verbatim>\<open>chans[i].append(v)\<close> on a list of channels.\<close>

definition append_at :: "nat \<Rightarrow> 'a \<Rightarrow> 'a list list \<Rightarrow> 'a list list" where
  "append_at i v chans = chans[i := chans ! i @ [v]]"

text \<open>\<^verbatim>\<open>int(x)\<close> on a float truncates towards zero.\<close>

definition py_trunc :: "real \<Rightarrow> int" where
  "py_trunc x = (if 0 \<le> x then \<lfloor>x\<rfloor> else \<lceil>x\<rceil>)"

text \<open>A \<^verbatim>\<open>defaultdict(list)\<close> in insertion order; \<^verbatim>\<open>d[k].append(v)\<close> creates the
  bucket of a new key.\<close>

fun dd_append :: "int \<Rightarrow> 'a \<Rightarrow> (int \<times> 'a list) list \<Rightarrow> (int \<times> 'a list) list" where
  "dd_append k v [] = [(k, [v])]"
| "dd_append k v ((k', vs) # rest) =
     (if k = k' then (k', vs @ [v]) # rest else (k', vs) # dd_append k v rest)"

definition dd_get :: "(int \<times> 'a list) list \<Rightarrow> int \<Rightarrow> 'a list" where
  "dd_get d k = (case map_of d k of None \<Rightarrow> [] | Some vs \<Rightarrow> vs)"

text \<open>
  \<^verbatim>\<open>for idx in sorted(temp_windows.keys()):\<close>
  \<^verbatim>\<open>    if temp_windows[idx]:\<close>
  \<^verbatim>\<open>        window_centers.append(idx*0.1 + 0.05)\<close>
  \<^verbatim>\<open>        temp_avg.append(sum(temp_windows[idx])/len(temp_windows[idx]))\<close>
  \<open>val\<close> reads a temperature as a real: the identity for floats, the embedding for
  integers. The division is guarded by the test for a non-empty bucket.
\<close>

fun windows_loop ::
  "('a \<Rightarrow> real) \<Rightarrow> (int \<times> 'a list) list \<Rightarrow> int list \<Rightarrow> real list \<times> real list \<Rightarrow> real list \<times> real list" where
  "windows_loop val temp_windows [] out = out"
| "windows_loop val temp_windows (idx # rest) out =
     (case out of (window_centers, temp_avg) \<Rightarrow>
        (let vals = dd_get temp_windows idx in
         if vals \<noteq> [] then
           windows_loop val temp_windows rest
             (window_centers @ [real_of_int idx * 0.1 + 0.05],
              temp_avg @ [sum_list (map val vals) / real (length vals)])
         else windows_loop val temp_windows rest out))"

definition window_averages :: "('a \<Rightarrow> real) \<Rightarrow> (int \<times> 'a list) list \<Rightarrow> real list \<times> real list" where
  "window_averages val temp_windows =
     windows_loop val temp_windows (sort (map fst temp_windows)) ([], [])"

text \<open>\<^verbatim>\<open>sum(ch)/len(ch)\<close> and \<^verbatim>\<open>(sum((x-mean)**2 for x in ch)/len(ch))**0.5\<close>: both divide by
  the length, and dividing by zero raises.\<close>

definition chan_mean :: "real list \<Rightarrow> py_error + real" where
  "chan_mean ch = (if length ch = 0 then Inl ZeroDivisionError else Inr (sum_list ch / real (length ch)))"

definition chan_std :: "real list \<times> real \<Rightarrow> py_error + real" where
  "chan_std cm =
     (case cm of (ch, mean) \<Rightarrow>
        if length ch = 0 then Inl ZeroDivisionError
        else Inr (sqrt (sum_list (map (\<lambda>x. (x - mean)\<^sup>2) ch) / real (length ch))))"

record stats =
  bias :: "real list"
  std :: "real list"
  unit :: string

subsection \<open>\<^verbatim>\<open>imu_calibration/imu_data_process.py\<close>: rows of seven fields\<close>

record idp_state =
  idp_time_stamps :: "real list"
  idp_accel :: "real list list"
  idp_gyro :: "real list list"
  idp_temperature :: "real list"
  idp_temp_windows :: "(int \<times> real list) list"

definition idp_init :: idp_state where
  "idp_init = \<lparr>idp_time_stamps = [], idp_accel = [[], [], []], idp_gyro = [[], [], []],
     idp_temperature = [], idp_temp_windows = []\<rparr>"

text \<open>\<^verbatim>\<open>parts = list(map(float, line.strip().split(',')))\<close>
  \<^verbatim>\<open>if len(parts) != 7: raise ValueError\<close>\<close>

definition idp_parse :: "pystr \<Rightarrow> py_error + real list" where
  "idp_parse line =
     bnd (in_order (map py_float (py_split (str_of '','') (py_strip line)))) (\<lambda>parts.
       if length parts \<noteq> 7 then Inl ValueError else Inr parts)"

text \<open>The two calibration loops append while they run: when indexing the calibration
  raises in the middle, the values appended so far stay in the lists.\<close>

fun idp_accel_loop :: "calibration \<Rightarrow> real list \<Rightarrow> nat list \<Rightarrow> idp_state \<Rightarrow> py_error option \<times> idp_state" where
  "idp_accel_loop calib parts [] st = (None, st)"
| "idp_accel_loop calib parts (i # rest) st =
     (case cal_accel calib parts i of
        Inl e \<Rightarrow> (Some e, st)
      | Inr calibrated \<Rightarrow>
          idp_accel_loop calib parts rest (st\<lparr>idp_accel := append_at i calibrated (idp_accel st)\<rparr>))"

fun idp_gyro_loop :: "calibration \<Rightarrow> real list \<Rightarrow> nat list \<Rightarrow> idp_state \<Rightarrow> py_error option \<times> idp_state" where
  "idp_gyro_loop calib parts [] st = (None, st)"
| "idp_gyro_loop calib parts (i # rest) st =
     (case cal_gyro calib parts (i + 3) i of
        Inl e \<Rightarrow> (Some e, st)
      | Inr calibrated \<Rightarrow>
          idp_gyro_loop calib parts rest (st\<lparr>idp_gyro := append_at i calibrated (idp_gyro st)\<rparr>))"

text \<open>
  The body of \<^verbatim>\<open>for line_num, line in enumerate(f)\<close>. The only exceptions that arise are
  \<^verbatim>\<open>ValueError\<close> (parsing) and \<^verbatim>\<open>IndexError\<close> (calibration lists), and
  \<^verbatim>\<open>except (ValueError, IndexError)\<close> catches both and goes on to the next line.
  \<^verbatim>\<open>parts[6]\<close> is in range: the list has seven entries.
\<close>

definition idp_line :: "calibration \<Rightarrow> nat \<Rightarrow> pystr \<Rightarrow> idp_state \<Rightarrow> idp_state" where
  "idp_line calib line_num line st =
     (case idp_parse line of
        Inl e \<Rightarrow> st
      | Inr parts \<Rightarrow>
          (case idp_accel_loop calib parts [0, 1, 2] st of
             (Some e, st1) \<Rightarrow> st1
           | (None, st1) \<Rightarrow>
               (case idp_gyro_loop calib parts [0, 1, 2] st1 of
                  (Some e, st2) \<Rightarrow> st2
                | (None, st2) \<Rightarrow>
                    (let t = real line_num * 0.005;
                         window_idx = py_trunc (t * 10)
                     in st2\<lparr>idp_time_stamps := idp_time_stamps st2 @ [t],
                            idp_temp_windows := dd_append window_idx (parts ! 6) (idp_temp_windows st2),
                            idp_temperature := idp_temperature st2 @ [parts ! 6]\<rparr>))))"

fun idp_loop :: "calibration \<Rightarrow> nat \<Rightarrow> pystr list \<Rightarrow> idp_state \<Rightarrow> idp_state" where
  "idp_loop calib line_num [] st = st"
| "idp_loop calib line_num (line # rest) st =
     idp_loop calib (Suc line_num) rest (idp_line calib line_num line st)"

text \<open>\<^verbatim>\<open>calc_stats\<close> of this script has no guard.\<close>

definition idp_calc_stats :: "real list list \<Rightarrow> string \<Rightarrow> py_error + stats" where
  "idp_calc_stats data u =
     bnd (in_order (map chan_mean data)) (\<lambda>means.
     bnd (in_order (map chan_std (zip data means))) (\<lambda>stds.
     Inr \<lparr>bias = means, std = stds, unit = u\<rparr>))"

record idp_result =
  idp_out_accel :: stats
  idp_out_gyro :: stats
  idp_out_temp_raw :: "real list \<times> real list"
  idp_out_accel_raw :: "real list \<times> real list list"
  idp_out_gyro_raw :: "real list \<times> real list list"
  idp_out_temp_avg :: "real list \<times> real list"

text \<open>The argument \<open>lines\<close> is what iterating over the opened file yields.\<close>

definition idp_process_imu_data :: "calibration \<Rightarrow> pystr list \<Rightarrow> py_error + idp_result" where
  "idp_process_imu_data calib lines =
     (let st = idp_loop calib 0 lines idp_init;
          avg = window_averages (\<lambda>x. x) (idp_temp_windows st)
      in bnd (idp_calc_stats (idp_accel st) ''g'') (\<lambda>a.
         bnd (idp_calc_stats (idp_gyro st) ''dps'') (\<lambda>g.
         Inr \<lparr>idp_out_accel = a, idp_out_gyro = g,
              idp_out_temp_raw = (idp_time_stamps st, idp_temperature st),
              idp_out_accel_raw = (idp_time_stamps st, idp_accel st),
              idp_out_gyro_raw = (idp_time_stamps st, idp_gyro st),
              idp_out_temp_avg = avg\<rparr>)))"

subsection \<open>\<^verbatim>\<open>imu_calibration/process_imu.py\<close>: rows of fourteen fields\<close>

record pi_state =
  pi_time_stamps :: "real list"
  pi_accel :: "real list list"
  pi_gyro :: "real list list"
  pi_temperature :: "int list"
  pi_accel_filt :: "real list list"
  pi_gyro_filt :: "real list list"
  pi_temp_filt :: "int list"
  pi_temp_windows :: "(int \<times> int list) list"
  pi_valid_line_count :: nat

definition pi_init :: pi_state where
  "pi_init = \<lparr>pi_time_stamps = [], pi_accel = [[], [], []], pi_gyro = [[], [], []],
     pi_temperature = [], pi_accel_filt = [[], [], []], pi_gyro_filt = [[], [], []],
     pi_temp_filt = [], pi_temp_windows = [], pi_valid_line_count = 0\<rparr>"

text \<open>\<^verbatim>\<open>for i in range(3): chans[i].append(vals[i])\<close>\<close>

definition store3 :: "real list list \<Rightarrow> real list \<Rightarrow> real list list" where
  "store3 chans vals = foldl (\<lambda>c i. append_at i (vals ! i) c) chans [0, 1, 2]"

text \<open>
  The six conversions that open the \<^verbatim>\<open>try\<close> block:
  \<^verbatim>\<open>accel_raw = list(map(float, parts[0:3]))\<close>, \<^verbatim>\<open>gyro_raw = list(map(float, parts[3:6]))\<close>,
  \<^verbatim>\<open>temp = int(parts[6])\<close>, \<^verbatim>\<open>accel_filt_raw = list(map(float, parts[7:10]))\<close>,
  \<^verbatim>\<open>gyro_filt_raw = list(map(float, parts[10:13]))\<close>, \<^verbatim>\<open>temp_filt_raw = int(parts[13])\<close>.
  The row has fourteen columns, so the two index reads are in range.
\<close>

record pi_record =
  accel_raw :: "real list"
  gyro_raw :: "real list"
  temp :: int
  accel_filt_raw :: "real list"
  gyro_filt_raw :: "real list"
  temp_filt_raw :: int

definition pi_convert :: "pystr list \<Rightarrow> py_error + pi_record" where
  "pi_convert parts =
     bnd (in_order (map py_float (take 3 parts))) (\<lambda>a.
     bnd (in_order (map py_float (take 3 (drop 3 parts)))) (\<lambda>g.
     bnd (py_int (parts ! 6)) (\<lambda>t.
     bnd (in_order (map py_float (take 3 (drop 7 parts)))) (\<lambda>af.
     bnd (in_order (map py_float (take 3 (drop 10 parts)))) (\<lambda>gf.
     bnd (py_int (parts ! 13)) (\<lambda>tf.
     Inr \<lparr>accel_raw = a, gyro_raw = g, temp = t,
          accel_filt_raw = af, gyro_filt_raw = gf, temp_filt_raw = tf\<rparr>))))))"

text \<open>
  The rest of the \<^verbatim>\<open>try\<close> block: the two calibrated triples, then the timestamp and the
  appends. Everything that can raise comes before the first append.
\<close>

definition pi_store :: "calibration \<Rightarrow> pi_record \<Rightarrow> pi_state \<Rightarrow> py_error + pi_state" where
  "pi_store calib r st =
     bnd (in_order (map (cal_accel calib (accel_raw r)) [0, 1, 2])) (\<lambda>accel_cal.
     bnd (in_order (map (\<lambda>i. cal_gyro calib (gyro_raw r) i i) [0, 1, 2])) (\<lambda>gyro_cal.
       (let t = real (pi_valid_line_count st) * 0.005;
            window_idx = py_trunc (t * 10)
        in Inr (st\<lparr>pi_time_stamps := pi_time_stamps st @ [t],
                    pi_valid_line_count := pi_valid_line_count st + 1,
                    pi_accel := store3 (pi_accel st) accel_cal,
                    pi_gyro := store3 (pi_gyro st) gyro_cal,
                    pi_accel_filt := store3 (pi_accel_filt st) (accel_filt_raw r),
                    pi_gyro_filt := store3 (pi_gyro_filt st) (gyro_filt_raw r),
                    pi_temperature := pi_temperature st @ [temp r],
                    pi_temp_filt := pi_temp_filt st @ [temp_filt_raw r],
                    pi_temp_windows := dd_append window_idx (temp r) (pi_temp_windows st)\<rparr>))))"

definition pi_body :: "calibration \<Rightarrow> pystr list \<Rightarrow> pi_state \<Rightarrow> py_error + pi_state" where
  "pi_body calib parts st = bnd (pi_convert parts) (\<lambda>r. pi_store calib r st)"

text \<open>The loop body: a row of another width is skipped, \<^verbatim>\<open>except ValueError\<close> skips a row
  that does not convert, any other exception leaves the function.\<close>

definition pi_row :: "calibration \<Rightarrow> pystr list \<Rightarrow> pi_state \<Rightarrow> py_error + pi_state" where
  "pi_row calib parts st =
     (if length parts \<noteq> 14 then Inr st
      else (case pi_body calib parts st of
              Inl e \<Rightarrow> if e = ValueError then Inr st else Inl e
            | Inr st' \<Rightarrow> Inr st'))"

fun pi_loop :: "calibration \<Rightarrow> pystr list list \<Rightarrow> pi_state \<Rightarrow> py_error + pi_state" where
  "pi_loop calib [] st = Inr st"
| "pi_loop calib (parts # rest) st = bnd (pi_row calib parts st) (pi_loop calib rest)"

text \<open>\<^verbatim>\<open>calc_stats\<close> of this script returns zeros when a channel is empty.\<close>

definition pi_calc_stats :: "real list list \<Rightarrow> string \<Rightarrow> py_error + stats" where
  "pi_calc_stats data u =
     (if \<not> list_all (\<lambda>ch. length ch > 0) data
      then Inr \<lparr>bias = [0, 0, 0], std = [0, 0, 0], unit = u\<rparr>
      else
        bnd (in_order (map chan_mean data)) (\<lambda>means.
        bnd (in_order (map chan_std (zip data means))) (\<lambda>stds.
        Inr \<lparr>bias = means, std = stds, unit = u\<rparr>)))"

record pi_result =
  pi_out_accel :: stats
  pi_out_gyro :: stats
  pi_out_temp_raw :: "real list \<times> int list"
  pi_out_accel_raw :: "real list \<times> real list list"
  pi_out_gyro_raw :: "real list \<times> real list list"
  pi_out_accel_filt :: "real list \<times> real list list"
  pi_out_gyro_filt :: "real list \<times> real list list"
  pi_out_temp_filt :: "real list \<times> int list"
  pi_out_temp_avg :: "real list \<times> real list"

definition pi_finish :: "pi_state \<Rightarrow> py_error + pi_result" where
  "pi_finish st =
     (let avg = window_averages real_of_int (pi_temp_windows st)
      in bnd (pi_calc_stats (pi_accel st) ''g'') (\<lambda>a.
         bnd (pi_calc_stats (pi_gyro st) ''dps'') (\<lambda>g.
         Inr \<lparr>pi_out_accel = a, pi_out_gyro = g,
              pi_out_temp_raw = (pi_time_stamps st, pi_temperature st),
              pi_out_accel_raw = (pi_time_stamps st, pi_accel st),
              pi_out_gyro_raw = (pi_time_stamps st, pi_gyro st),
              pi_out_accel_filt = (pi_time_stamps st, pi_accel_filt st),
              pi_out_gyro_filt = (pi_time_stamps st, pi_gyro_filt st),
              pi_out_temp_filt = (pi_time_stamps st, pi_temp_filt st),
              pi_out_temp_avg = avg\<rparr>)))"

text \<open>
  The argument \<open>rows\<close> is what \<^verbatim>\<open>csv.reader(f)\<close> yields. \<^verbatim>\<open>next(csv_reader)\<close> takes the
  first row away and raises \<^verbatim>\<open>StopIteration\<close> when there is none; nothing catches it.
\<close>

definition pi_process_imu_data :: "calibration \<Rightarrow> pystr list list \<Rightarrow> py_error + pi_result" where
  "pi_process_imu_data calib rows =
     (case rows of
        [] \<Rightarrow> Inl StopIteration
      | header # rest \<Rightarrow> bnd (pi_loop calib rest pi_init) pi_finish)"

subsection \<open>Concrete inputs\<close>

text \<open>ASCII text as the bytes a device sends.\<close>

definition ascii :: "string \<Rightarrow> byte list" where
  "ascii s = map of_char s"

text \<open>The record and the calibration of the specification's worked example, and the same
  record as a row of fourteen columns with its filtered copy.\<close>

definition example_line :: pystr where
  "example_line = str_of ''3,0,0,1,1,1,25''"

text \<open>The example record with a temperature that is a number but not an integer.\<close>

definition float_temp_line :: pystr where
  "float_temp_line = str_of ''3,0,0,1,1,1,25.5''"

text \<open>A record with values of three decimals, one of them negative.\<close>

definition fine_line :: pystr where
  "fine_line = str_of ''1.234,0.125,-0.375,1,10,100,25''"

definition example_calibration :: calibration where
  "example_calibration = \<lparr>accel_bias = [1, 0, 0], accel_scale = [2, 1, 1], gyro_bias = [0, 0, 0]\<rparr>"

definition example_row14 :: "pystr list" where
  "example_row14 = map str_of
     [''3'', ''0'', ''0'', ''1'', ''1'', ''1'', ''25'', ''3'', ''0'', ''0'', ''1'', ''1'', ''1'', ''25'']"

text \<open>A calibration is well formed when each of its lists has the three entries the
  processors index.\<close>

definition well_formed :: "calibration \<Rightarrow> bool" where
  "well_formed calib \<longleftrightarrow>
     3 \<le> length (accel_bias calib) \<and> 3 \<le> length (accel_scale calib) \<and> 3 \<le> length (gyro_bias calib)"

text \<open>For the statements about \<^verbatim>\<open>process_imu.py\<close>: the state after a converted row has
  been stored, when nothing raised, and the shape of the channel lists (three each).\<close>

definition pi_sample :: "calibration \<Rightarrow> pi_record \<Rightarrow> pi_state \<Rightarrow> pi_state" where
  "pi_sample calib r st =
     st\<lparr>pi_time_stamps := pi_time_stamps st @ [real (pi_valid_line_count st) * 0.005],
        pi_valid_line_count := pi_valid_line_count st + 1,
        pi_accel := map (\<lambda>i. pi_accel st ! i @ [(accel_raw r ! i - accel_bias calib ! i) * accel_scale calib ! i]) [0, 1, 2],
        pi_gyro := map (\<lambda>i. pi_gyro st ! i @ [gyro_raw r ! i - gyro_bias calib ! i]) [0, 1, 2],
        pi_accel_filt := map (\<lambda>i. pi_accel_filt st ! i @ [accel_filt_raw r ! i]) [0, 1, 2],
        pi_gyro_filt := map (\<lambda>i. pi_gyro_filt st ! i @ [gyro_filt_raw r ! i]) [0, 1, 2],
        pi_temperature := pi_temperature st @ [temp r],
        pi_temp_filt := pi_temp_filt st @ [temp_filt_raw r],
        pi_temp_windows := dd_append (py_trunc (real (pi_valid_line_count st) * 0.005 * 10)) (temp r)
                             (pi_temp_windows st)\<rparr>"

definition pi_shape :: "pi_state \<Rightarrow> bool" where
  "pi_shape st \<longleftrightarrow> length (pi_accel st) = 3 \<and> length (pi_gyro st) = 3 \<and>
     length (pi_accel_filt st) = 3 \<and> length (pi_gyro_filt st) = 3"

text \<open>The valid records of an input, in order: the lines, or rows, the parser of the
  script converts.\<close>

definition idp_records :: "pystr list \<Rightarrow> real list list" where
  "idp_records lines =
     concat (map (\<lambda>line. case idp_parse line of Inr parts \<Rightarrow> [parts] | Inl e \<Rightarrow> []) lines)"

definition pi_records :: "pystr list list \<Rightarrow> pi_record list" where
  "pi_records rows =
     concat (map (\<lambda>parts. if length parts = 14
                          then (case pi_convert parts of Inr r \<Rightarrow> [r] | Inl e \<Rightarrow> [])
                          else []) rows)"

subsection \<open>The windowed aggregation as the specification words it\<close>

text \<open>
  These two definitions follow the specification, not the code, and are what the code's
  dictionary and loop are compared with. The samples of window \<open>k\<close> are those whose
  timestamp \<open>t\<close> has \<open>floor (t * 10) = k\<close>, in arrival order. The averaged points: one for
  each window that has a sample, in ascending order of the window index, at the centre
  \<open>k * 0.1 + 0.05\<close>.
\<close>

definition spec_bucket :: "real list \<Rightarrow> 'a list \<Rightarrow> int \<Rightarrow> 'a list" where
  "spec_bucket ts temps k = map snd (filter (\<lambda>(t, v). \<lfloor>t * 10\<rfloor> = k) (zip ts temps))"

definition spec_window_averages :: "('a \<Rightarrow> real) \<Rightarrow> real list \<Rightarrow> 'a list \<Rightarrow> real list \<times> real list" where
  "spec_window_averages val ts temps =
     (let ks = sort (remdups (map (\<lambda>t. \<lfloor>t * 10\<rfloor>) ts)) in
      (map (\<lambda>k. real_of_int k * 0.1 + 0.05) ks,
       map (\<lambda>k. sum_list (map val (spec_bucket ts temps k)) / real (length (spec_bucket ts temps k))) ks))"

text \<open>The invariant that ties the dictionary of the code to the lists of timestamps and
  temperatures.\<close>

definition windows_ok :: "real list \<Rightarrow> 'a list \<Rightarrow> (int \<times> 'a list) list \<Rightarrow> bool" where
  "windows_ok ts temps tw \<longleftrightarrow>
     length ts = length temps \<and> distinct (map fst tw) \<and>
     set (map fst tw) = set (map (\<lambda>t. \<lfloor>t * 10\<rfloor>) ts) \<and>
     (\<forall>k. dd_get tw k = spec_bucket ts temps k)"

section \<open>Properties\<close>

declare drain.simps [simp del]

declare decimal_string.simps [simp del]


lemma py_split_ne: "py_split sep s \<noteq> []"
  by (induction sep s rule: py_split.induct) (auto split: list.splits)

subsection \<open>Helpers\<close>

lemma bnd_simps [simp]: "bnd (Inl e) f = Inl e" "bnd (Inr x) f = f x"
  by (simp_all add: bnd_def)

lemma bnd_Inr_Inl [simp]: "bnd m (\<lambda>s. Inr (g s)) = Inl e \<longleftrightarrow> m = Inl e"
  by (cases m) simp_all

lemma utf8_decode_error: "utf8_decode bs = Inl e \<Longrightarrow> e = UnicodeDecodeError"
proof (induction "length bs" arbitrary: bs e rule: less_induct)
  case less
  show ?case
  proof (cases bs)
    case Nil
    with less.prems show ?thesis by simp
  next
    case (Cons b r)
    have IH: "utf8_decode r' = Inl e \<Longrightarrow> length r' < length bs \<Longrightarrow> e = UnicodeDecodeError" for r'
      using less.hyps by blast
    from less.prems have "utf8_decode (b # r) = Inl e"
      by (simp add: Cons)
    then show ?thesis
      by (auto simp: Cons split: if_splits list.splits dest: IH)
  qed
qed

lemma decode_line_cases:
  "decode_line bs =
     Inr (py_strip (case utf8_decode bs of Inr s \<Rightarrow> s | Inl e \<Rightarrow> latin1_decode bs))"
  by (auto simp: decode_line_def split: sum.splits dest: utf8_decode_error)

lemma decode_line_total: "\<exists>t. decode_line bs = Inr t"
  by (simp add: decode_line_cases)

lemma latin1_roundtrip: "latin1_encode (latin1_decode bs) = Inr bs"
proof -
  have "list_all (\<lambda>c. c < 256) (map unat bs)"
  proof (induction bs)
    case Nil
    show ?case by simp
  next
    case (Cons b bs)
    have "unat b < 2 ^ LENGTH(8)" by (rule unsigned_less)
    with Cons show ?case by simp
  qed
  moreover have "map of_nat (map unat bs) = bs"
    by (induction bs) simp_all
  ultimately show ?thesis
    by (simp add: latin1_encode_def latin1_decode_def)
qed

lemma in_order_length: "in_order ms = Inr xs \<Longrightarrow> length xs = length ms"
proof (induction ms arbitrary: xs)
  case Nil
  then show ?case by simp
next
  case (Cons m ms)
  then show ?case
    by (cases m; cases "in_order ms") auto
qed

lemma seven_fields:
  assumes "length parts = 7"
  shows "\<exists>p0 p1 p2 p3 p4 p5 p6. parts = [p0, p1, p2, p3, p4, p5, p6]"
proof -
  have "parts = map (\<lambda>i. parts ! i) [0..<7]"
    using assms by (metis map_nth)
  also have "[0..<7] = [0, 1, 2, 3, 4, 5, 6]"
    by (simp add: upt_rec)
  finally have "parts = [parts ! 0, parts ! 1, parts ! 2, parts ! 3, parts ! 4, parts ! 5, parts ! 6]"
    by simp
  then show ?thesis by blast
qed

subsection \<open>The line framer\<close>

lemma index_newline_less: "newline \<in> set b \<Longrightarrow> index_newline b < length b"
  unfolding index_newline_def by (induction b) auto

lemma index_newline_append: "newline \<in> set b1 \<Longrightarrow> index_newline (b1 @ b2) = index_newline b1"
  unfolding index_newline_def by (induction b1) auto

lemma count_at_newline:
  "newline \<in> set b \<Longrightarrow> count_list b newline = Suc (count_list (drop (index_newline b + 1) b) newline)"
  unfolding index_newline_def by (induction b) auto

lemma drain_stop: "newline \<notin> set buffer \<Longrightarrow> drain h buffer st = Inr (buffer, st)"
  by (subst drain.simps) simp

lemma drain_step:
  "newline \<in> set buffer \<Longrightarrow> decode_line (take (index_newline buffer) buffer) = Inr line \<Longrightarrow>
   drain h buffer st = drain h (drop (index_newline buffer + 1) buffer) (h st line)"
  by (subst drain.simps) simp

lemma drain_total: "\<exists>r st'. drain h buffer st = Inr (r, st') \<and> newline \<notin> set r"
proof (induction h buffer st rule: drain.induct)
  case (1 h buffer st)
  show ?case
  proof (cases "newline \<in> set buffer")
    case True
    obtain line where l: "decode_line (take (index_newline buffer) buffer) = Inr line"
      using decode_line_total by blast
    from "1.IH" [OF True refl l] show ?thesis
      by (simp add: drain_step [OF True l])
  next
    case False
    then show ?thesis by (simp add: drain_stop)
  qed
qed

lemma drain_append:
  "drain h (b1 @ b2) st = bnd (drain h b1 st) (\<lambda>(r, st'). drain h (r @ b2) st')"
proof (induction h b1 st rule: drain.induct)
  case (1 h buffer st)
  show ?case
  proof (cases "newline \<in> set buffer")
    case True
    obtain line where l: "decode_line (take (index_newline buffer) buffer) = Inr line"
      using decode_line_total by blast
    have lt: "index_newline buffer < length buffer"
      using True by (rule index_newline_less)
    have "drain h (buffer @ b2) st = drain h (drop (index_newline buffer + 1) buffer @ b2) (h st line)"
      using True lt l by (subst drain.simps) (simp add: index_newline_append)
    also have "\<dots> = bnd (drain h (drop (index_newline buffer + 1) buffer) (h st line))
                      (\<lambda>(r, st'). drain h (r @ b2) st')"
      using "1.IH" [OF True refl l] .
    also have "drain h (drop (index_newline buffer + 1) buffer) (h st line) = drain h buffer st"
      by (rule drain_step [OF True l, symmetric])
    finally show ?thesis .
  next
    case False
    then show ?thesis by (simp add: drain_stop)
  qed
qed

lemma feed_all_drain:
  "newline \<notin> set buffer \<Longrightarrow> feed_all h chunks (buffer, st) = drain h (buffer @ concat chunks) st"
proof (induction chunks arbitrary: buffer st)
  case Nil
  then show ?case by (simp add: drain_stop)
next
  case (Cons data chunks)
  have f: "feed h data (buffer, st) = drain h (buffer @ data) st"
    using Cons.prems by (cases "data = []") (simp_all add: feed_def drain_stop)
  obtain r st' where d: "drain h (buffer @ data) st = Inr (r, st')" and r: "newline \<notin> set r"
    using drain_total [of h "buffer @ data" st] by auto
  have "drain h (buffer @ concat (data # chunks)) st = drain h ((buffer @ data) @ concat chunks) st"
    by simp
  also have "\<dots> = drain h (r @ concat chunks) st'"
    by (subst drain_append) (simp add: d)
  finally show ?case
    using Cons.IH [OF r, of st'] by (simp add: f d)
qed

lemma feed_all_single: "feed_all h chunks ([], st) = feed_all h [concat chunks] ([], st)"
proof -
  have "feed_all h [concat chunks] ([], st) = drain h (concat chunks) st"
    using feed_all_drain [of "[]" h "[concat chunks]" st] by simp
  then show ?thesis
    using feed_all_drain [of "[]" h chunks st] by simp
qed

lemma drain_record_count:
  "drain record_line buffer seen = Inr (r, seen') \<Longrightarrow>
   length seen' = length seen + count_list buffer newline"
proof (induction record_line buffer seen rule: drain.induct)
  case (1 buffer st)
  show ?case
  proof (cases "newline \<in> set buffer")
    case True
    obtain line where l: "decode_line (take (index_newline buffer) buffer) = Inr line"
      using decode_line_total by blast
    have "drain record_line (drop (index_newline buffer + 1) buffer) (record_line st line) = Inr (r, seen')"
      using "1.prems" by (simp only: drain_step [OF True l, of record_line st])
    from "1.hyps" [OF True refl l this] show ?thesis
      by (simp add: count_at_newline [OF True] record_line_def)
  next
    case False
    with "1.prems" show ?thesis by (simp add: drain_stop)
  qed
qed

text \<open>
  Claim C4. However a byte sequence is cut into chunks, feeding the chunks one after the
  other to the line framer yields the same decoded lines as feeding all the bytes at once;
  one byte per chunk is a special case. The same holds for whatever the loop body does
  with each line (the handler \<open>h\<close>), from any collected data \<open>st\<close>.
\<close>

theorem chunk_size_invariance:
  "decoded_lines chunks = decoded_lines [concat chunks] \<and>
   decoded_lines (map (\<lambda>b. [b]) bytes) = decoded_lines [bytes] \<and>
   feed_all h chunks ([], st) = feed_all h [concat chunks] ([], st)"
proof -
  have a: "decoded_lines cs = decoded_lines [concat cs]" for cs
    unfolding decoded_lines_def by (subst feed_all_single) simp
  have "concat (map (\<lambda>b. [b]) bytes) = bytes"
    by (induction bytes) simp_all
  with a [of "map (\<lambda>b. [b]) bytes"] a [of chunks] feed_all_single [of h chunks st]
  show ?thesis by simp
qed

text \<open>
  Claim C7. Every byte span decodes to some line. When the UTF-8 decoding raises, the line
  is the ISO-8859-1 decoding of the same span (stripped), and that decoding loses nothing:
  encoding it gives the bytes back. So the drain loop never ends in an exception, and the
  lines it hands on are as many as the newlines received: none is dropped.
\<close>

theorem decoding_never_fails:
  "(\<exists>line. decode_line bs = Inr line) \<and>
   (\<forall>e. utf8_decode bs = Inl e \<longrightarrow> decode_line bs = Inr (py_strip (latin1_decode bs))) \<and>
   (\<forall>s. utf8_decode bs = Inr s \<longrightarrow> decode_line bs = Inr (py_strip s)) \<and>
   latin1_encode (latin1_decode bs) = Inr bs \<and>
   (\<exists>rest st'. drain h buffer st = Inr (rest, st')) \<and>
   (\<exists>lines. decoded_lines chunks = Inr lines \<and> length lines = count_list (concat chunks) newline)"
proof -
  obtain r seen where d: "drain record_line (concat chunks) [] = Inr (r, seen)"
    using drain_total [of record_line "concat chunks" "[]"] by auto
  have "decoded_lines chunks = Inr seen"
    using feed_all_drain [of "[]" record_line chunks "[]"] d by (simp add: decoded_lines_def)
  moreover have "length seen = count_list (concat chunks) newline"
    using drain_record_count [OF d] by simp
  moreover have "\<exists>rest st'. drain h buffer st = Inr (rest, st')"
    using drain_total [of h buffer st] by auto
  ultimately show ?thesis
    by (simp add: decode_line_cases latin1_roundtrip)
qed

text \<open>The span \<open>E9 35\<close> is not UTF-8; it decodes as Latin-1 to U+00E9, U+0035.\<close>

theorem decoding_never_fails_witness:
  "utf8_decode [0xE9, 0x35] = Inl UnicodeDecodeError \<and> decode_line [0xE9, 0x35] = Inr [233, 53]"
proof -
  have u: "utf8_decode [0xE9, 0x35] = Inl UnicodeDecodeError"
    by (simp add: cont_def second_ok_def)
  have "decode_line [0xE9, 0x35] = Inr (py_strip (latin1_decode [0xE9, 0x35]))"
    using decoding_never_fails [where bs = "[0xE9, 0x35]" and h = "\<lambda>(s::unit) l. s"
        and buffer = "[]" and st = "()" and chunks = "[]"] u
    by blast
  then show ?thesis
    using u by (simp add: latin1_decode_def py_strip_def isspace_def)
qed

subsection \<open>Evaluating the example inputs\<close>

lemma decimal_digit_ascii: "48 \<le> c \<Longrightarrow> c \<le> 57 \<Longrightarrow> decimal_digit c = Some (c - 48)"
  by (simp add: decimal_digit_def digit_blocks_def)

lemma decimal_digit_below: "c < 48 \<Longrightarrow> decimal_digit c = None"
  by (simp add: decimal_digit_def digit_blocks_def)

lemma decimal_digit_letters: "57 < c \<Longrightarrow> c < 1632 \<Longrightarrow> decimal_digit c = None"
  by (simp add: decimal_digit_def digit_blocks_def)

lemmas parse_defs = py_float_def py_int_def int_max_str_digits_def numeric_strip_def numeric_space_def split_sign_def
  mantissa_def exponent_def digits_value_def scale10_def non_finite_literal_def lower_def
  decimal_digit_ascii decimal_digit_below decimal_digit_letters

lemma floats_eval:
  "py_float (str_of ''0'') = Inr 0" "py_float (str_of ''1'') = Inr 1" "py_float (str_of ''3'') = Inr 3"
  "py_float (str_of ''25'') = Inr 25" "py_float (str_of ''25.5'') = Inr 25.5"
  "py_float (str_of ''x'') = Inl ValueError"
  by (simp_all add: str_of_def parse_defs)

lemma ints_eval:
  "py_int (str_of ''25'') = Inr 25" "py_int (str_of ''25.5'') = Inl ValueError"
  by (simp_all add: str_of_def parse_defs)

lemma split_example: "py_split (str_of '','') example_line = map str_of [''3'', ''0'', ''0'', ''1'', ''1'', ''1'', ''25'']"
  by (simp add: example_line_def str_of_def)

lemma parse_sensor_example:
  "parse_sensor example_line = Inr [PyFloat 3, PyFloat 0, PyFloat 0, PyFloat 1, PyFloat 1, PyFloat 1, PyInt 25]"
  by (simp add: parse_sensor_def split_example field_float_def field_int_def py_index_def floats_eval ints_eval)

lemma count_example: "count_list example_line 44 = 6"
  by (simp add: example_line_def str_of_def)

lemma decode_example: "decode_line (ascii ''3,0,0,1,1,1,25'') = Inr example_line"
  by (simp add: decode_line_def ascii_def example_line_def str_of_def py_strip_def isspace_def)

lemma idp_parse_example: "idp_parse example_line = Inr [3, 0, 0, 1, 1, 1, 25]"
proof -
  have "py_strip example_line = example_line"
    by (simp add: example_line_def str_of_def py_strip_def isspace_def)
  then show ?thesis
    by (simp add: idp_parse_def split_example floats_eval)
qed

lemma pi_convert_example:
  "pi_convert example_row14 = Inr \<lparr>accel_raw = [3, 0, 0], gyro_raw = [1, 1, 1], temp = 25,
      accel_filt_raw = [3, 0, 0], gyro_filt_raw = [1, 1, 1], temp_filt_raw = 25\<rparr>"
  by (simp add: pi_convert_def example_row14_def floats_eval ints_eval)

lemma drain_example:
  "drain h (ascii ''3,0,0,1,1,1,25\<newline>'') st = Inr ([], h st example_line)"
proof -
  have n: "newline \<in> set (ascii ''3,0,0,1,1,1,25\<newline>'')"
    by (simp add: ascii_def newline_def)
  have i: "index_newline (ascii ''3,0,0,1,1,1,25\<newline>'') = 14"
    by (simp add: ascii_def newline_def index_newline_def)
  have t: "take 14 (ascii ''3,0,0,1,1,1,25\<newline>'') = ascii ''3,0,0,1,1,1,25''"
    by (simp add: ascii_def)
  have d: "drop 15 (ascii ''3,0,0,1,1,1,25\<newline>'') = []"
    by (simp add: ascii_def)
  show ?thesis
    using drain_step [OF n, of example_line h st] by (simp add: i t d decode_example drain_stop)
qed

subsection \<open>The acquisition loop\<close>

lemma feed_total: "\<exists>r st'. feed h data (buffer, st) = Inr (r, st')"
  using drain_total [of h "buffer @ data" st] by (auto simp: feed_def)

lemma drain_invariant:
  "(\<And>s line. P s \<Longrightarrow> P (h s line)) \<Longrightarrow> P st \<Longrightarrow> drain h buffer st = Inr (r, st') \<Longrightarrow> P st'"
proof (induction h buffer st rule: drain.induct)
  case (1 h buffer st)
  show ?case
  proof (cases "newline \<in> set buffer")
    case True
    obtain line where l: "decode_line (take (index_newline buffer) buffer) = Inr line"
      using decode_line_total by blast
    have "drain h (drop (index_newline buffer + 1) buffer) (h st line) = Inr (r, st')"
      using "1.prems"(3) by (simp only: drain_step [OF True l, of h st])
    from "1.IH" [OF True refl l "1.prems"(1) "1.prems"(1) [OF "1.prems"(2)] this]
    show ?thesis .
  next
    case False
    with "1.prems" show ?thesis by (simp add: drain_stop)
  qed
qed

lemma capture_loop_invariant:
  assumes step: "\<And>s line. P s \<Longrightarrow> P (h s line)"
  shows "P st \<Longrightarrow> capture_loop h polls ser buffer st = (Inr st', ser') \<Longrightarrow> P st'"
proof (induction polls arbitrary: ser buffer st)
  case 0
  then show ?case by simp
next
  case (Suc polls)
  obtain res ser1 where ra: "read_all ser = (res, ser1)"
    by (cases "read_all ser")
  show ?case
  proof (cases res)
    case (Inl e)
    with Suc.prems ra show ?thesis by simp
  next
    case (Inr data)
    obtain b1 st1 where f: "feed h data (buffer, st) = Inr (b1, st1)"
      using feed_total [of h data buffer st] by auto
    have "P st1"
    proof (cases "data = []")
      case True
      with f Suc.prems(1) show ?thesis by (simp add: feed_def)
    next
      case False
      with f have "drain h (buffer @ data) st = Inr (b1, st1)" by (simp add: feed_def)
      from drain_invariant [where P = P and h = h, OF step Suc.prems(1) this]
      show ?thesis .
    qed
    moreover have "capture_loop h polls ser1 b1 st1 = (Inr st', ser')"
      using Suc.prems(2) ra Inr f by simp
    ultimately show ?thesis by (rule Suc.IH)
  qed
qed

lemma capture_loop_fault:
  "Fault \<notin> set pre \<Longrightarrow> length pre < polls \<Longrightarrow>
   capture_loop h polls \<lparr>is_open = op, incoming = pre @ Fault # post\<rparr> buffer st
     = (Inl SerialException, \<lparr>is_open = op, incoming = post\<rparr>)"
proof (induction pre arbitrary: polls buffer st)
  case Nil
  then obtain n where "polls = Suc n" by (cases polls) auto
  then show ?case by (simp add: read_all_def)
next
  case (Cons ev pre)
  then obtain n where n: "polls = Suc n" "length pre < n" by (cases polls) auto
  from Cons.prems obtain data where ev: "ev = Bytes data" by (cases ev) auto
  obtain b1 st1 where f: "feed h data (buffer, st) = Inr (b1, st1)"
    using feed_total [of h data buffer st] by auto
  from Cons.prems have "Fault \<notin> set pre" by simp
  from Cons.IH [OF this n(2), of b1 st1] show ?case
    by (simp add: n ev read_all_def f)
qed

lemma parse_sensor_shape:
  assumes "parse_sensor line = Inr row"
  shows "\<exists>vals t. length vals = 6 \<and> row = map PyFloat vals @ [PyInt t]"
proof -
  from assms obtain accel gyro t where
    ac: "in_order (map (field_float (py_split (str_of '','') line)) [0, 1, 2]) = Inr accel" and
    gy: "in_order (map (field_float (py_split (str_of '','') line)) [3, 4, 5]) = Inr gyro" and
    r: "row = map PyFloat accel @ map PyFloat gyro @ [PyInt t]"
    by (auto simp: parse_sensor_def Let_def bnd_def split: sum.splits)
  from in_order_length [OF ac] in_order_length [OF gy] have "length (accel @ gyro) = 6"
    by simp
  moreover have "row = map PyFloat (accel @ gyro) @ [PyInt t]"
    by (simp add: r)
  ultimately show ?thesis by blast
qed

lemma six_values:
  assumes "length vals = 6"
  shows "\<exists>a0 a1 a2 a3 a4 a5. vals = [a0, a1, a2, a3, a4, a5]"
proof -
  have "vals = map (\<lambda>i. vals ! i) [0..<6]"
    using assms by (metis map_nth)
  also have "[0..<6] = [0, 1, 2, 3, 4, 5]"
    by (simp add: upt_rec)
  finally have "vals = [vals ! 0, vals ! 1, vals ! 2, vals ! 3, vals ! 4, vals ! 5]"
    by simp
  then show ?thesis by blast
qed

lemma sc_formatted_record:
  assumes "length vals = 6"
  shows "sc_formatted fmt (map PyFloat vals @ [PyInt t]) (map PyFloat vals @ [PyInt t]) =
     Inr (map (\<lambda>x. Value (PyFloat x)) vals @ [Value (PyInt t)] @
          map (\<lambda>x. Text2f (fmt x)) vals @ [Value (PyInt t)])"
proof -
  from six_values [OF assms] obtain a0 a1 a2 a3 a4 a5 where "vals = [a0, a1, a2, a3, a4, a5]"
    by blast
  then show ?thesis
    by (simp add: sc_formatted_def py_index_def format_2f_def)
qed

lemma sc_save_imu_data_records:
  "list_all (\<lambda>(vals, t). length vals = 6) recs \<Longrightarrow>
   sc_save_imu_data fmt (map (\<lambda>(vals, t). map PyFloat vals @ [PyInt t]) recs)
       (map (\<lambda>(vals, t). map PyFloat vals @ [PyInt t]) recs) =
     Inr (map (\<lambda>(vals, t). map (\<lambda>x. Value (PyFloat x)) vals @ [Value (PyInt t)] @
                            map (\<lambda>x. Text2f (fmt x)) vals @ [Value (PyInt t)]) recs)"
proof (induction recs)
  case Nil
  show ?case by (simp add: sc_save_imu_data_def)
next
  case (Cons rec recs)
  obtain vals t where rec: "rec = (vals, t)" by (cases rec)
  with Cons.prems have l: "length vals = 6" by simp
  from Cons have "sc_save_imu_data fmt (map (\<lambda>(vals, t). map PyFloat vals @ [PyInt t]) recs)
       (map (\<lambda>(vals, t). map PyFloat vals @ [PyInt t]) recs) =
     Inr (map (\<lambda>(vals, t). map (\<lambda>x. Value (PyFloat x)) vals @ [Value (PyInt t)] @
                            map (\<lambda>x. Text2f (fmt x)) vals @ [Value (PyInt t)]) recs)"
    by simp
  then show ?case
    unfolding sc_save_imu_data_def by (simp add: rec sc_formatted_record [OF l])
qed

lemma sc_handle_line_keeps:
  assumes "sc_filtered_data s = sc_raw_data s \<and>
           (\<exists>recs. list_all (\<lambda>(vals, t). length vals = 6) recs \<and>
                   sc_raw_data s = map (\<lambda>(vals, t). map PyFloat vals @ [PyInt t]) recs)"
  shows "sc_filtered_data (sc_handle_line s line) = sc_raw_data (sc_handle_line s line) \<and>
         (\<exists>recs. list_all (\<lambda>(vals, t). length vals = 6) recs \<and>
                 sc_raw_data (sc_handle_line s line) = map (\<lambda>(vals, t). map PyFloat vals @ [PyInt t]) recs)"
proof -
  from assms obtain recs where eq: "sc_filtered_data s = sc_raw_data s"
    and l: "list_all (\<lambda>(vals, t). length vals = 6) recs"
    and r: "sc_raw_data s = map (\<lambda>(vals, t). map PyFloat vals @ [PyInt t]) recs"
    by blast
  have grow: "\<exists>recs'. list_all (\<lambda>(vals, t). length vals = 6) recs' \<and>
      sc_raw_data s @ [row] = map (\<lambda>(vals, t). map PyFloat vals @ [PyInt t]) recs'"
    if "parse_sensor line = Inr row" for row
  proof -
    from parse_sensor_shape [OF that] obtain vals t where
      "length vals = 6" "row = map PyFloat vals @ [PyInt t]"
      by blast
    with l r have "list_all (\<lambda>(vals, t). length vals = 6) (recs @ [(vals, t)])"
      "sc_raw_data s @ [row] = map (\<lambda>(vals, t). map PyFloat vals @ [PyInt t]) (recs @ [(vals, t)])"
      by simp_all
    then show ?thesis by blast
  qed
  have keep: "\<exists>recs'. list_all (\<lambda>(vals, t). length vals = 6) recs' \<and>
      sc_raw_data s = map (\<lambda>(vals, t). map PyFloat vals @ [PyInt t]) recs'"
    using l r by blast
  show ?thesis
    using eq grow keep by (auto simp: sc_handle_line_def split: sum.splits)
qed

text \<open>
  Claim C10, amended. Whatever a live capture of the quaternion-capable script returns,
  its filtered-data list is the raw-data list: each parsed record, six floats and an
  integer, is appended to both. In the row \<^verbatim>\<open>save_imu_data\<close> writes for a record, the
  raw columns hold the seven values; the six filtered float columns hold the same values
  formatted by \<^verbatim>\<open>f"{x:.2f}"\<close> (here any function \<open>fmt\<close>), and the filtered temperature is
  the raw temperature.
\<close>

theorem filtered_equals_raw:
  assumes "fst (sc_capture_serial_data port_ok polls events) = Inr (raw, filtered, quat, invalid)"
  shows "filtered = raw \<and>
         (\<exists>recs. list_all (\<lambda>(vals, t). length vals = 6) recs \<and>
            raw = map (\<lambda>(vals, t). map PyFloat vals @ [PyInt t]) recs \<and>
            sc_save_imu_data fmt raw filtered =
              Inr (map (\<lambda>(vals, t). map (\<lambda>x. Value (PyFloat x)) vals @ [Value (PyInt t)] @
                                     map (\<lambda>x. Text2f (fmt x)) vals @ [Value (PyInt t)]) recs))"
proof -
  from assms have ok: port_ok
    by (cases port_ok) (simp_all add: sc_capture_serial_data_def capture_frame_def)
  obtain res ser where cl:
    "capture_loop sc_handle_line polls \<lparr>is_open = True, incoming = events\<rparr> [] sc_init = (res, ser)"
    by (cases "capture_loop sc_handle_line polls \<lparr>is_open = True, incoming = events\<rparr> [] sc_init")
  with assms ok obtain st where st: "res = Inr st" "sc_return st = (raw, filtered, quat, invalid)"
    by (cases res) (auto simp: sc_capture_serial_data_def capture_frame_def split: if_splits)
  have i: "sc_filtered_data sc_init = sc_raw_data sc_init \<and>
           (\<exists>recs. list_all (\<lambda>(vals, t). length vals = 6) recs \<and>
                   sc_raw_data sc_init = map (\<lambda>(vals, t). map PyFloat vals @ [PyInt t]) recs)"
    by (simp add: sc_init_def)
  from cl st(1) have cl': "capture_loop sc_handle_line polls \<lparr>is_open = True, incoming = events\<rparr> [] sc_init
      = (Inr st, ser)"
    by simp
  have "sc_filtered_data st = sc_raw_data st \<and>
           (\<exists>recs. list_all (\<lambda>(vals, t). length vals = 6) recs \<and>
                   sc_raw_data st = map (\<lambda>(vals, t). map PyFloat vals @ [PyInt t]) recs)"
    by (rule capture_loop_invariant
        [where P = "\<lambda>s. sc_filtered_data s = sc_raw_data s \<and>
           (\<exists>recs. list_all (\<lambda>(vals, t). length vals = 6) recs \<and>
                   sc_raw_data s = map (\<lambda>(vals, t). map PyFloat vals @ [PyInt t]) recs)",
          OF sc_handle_line_keeps i cl'])
  with st(2) obtain recs where eq: "filtered = raw"
    and l: "list_all (\<lambda>(vals, t). length vals = 6) recs"
    and r: "raw = map (\<lambda>(vals, t). map PyFloat vals @ [PyInt t]) recs"
    by (auto simp: sc_return_def)
  from sc_save_imu_data_records [OF l, of fmt] eq l r show ?thesis
    by auto
qed

lemma sc_handle_example:
  "sc_handle_line sc_init example_line =
     \<lparr>sc_raw_data = [[PyFloat 3, PyFloat 0, PyFloat 0, PyFloat 1, PyFloat 1, PyFloat 1, PyInt 25]],
      sc_filtered_data = [[PyFloat 3, PyFloat 0, PyFloat 0, PyFloat 1, PyFloat 1, PyFloat 1, PyInt 25]],
      sc_quat_data = [], sc_invalid_count = 0\<rparr>"
proof -
  have "\<not> startswith example_line (str_of ''Quaternion:'')"
    by (simp add: startswith_def example_line_def str_of_def)
  then show ?thesis
    by (simp add: sc_handle_line_def count_example parse_sensor_example sc_init_def)
qed

lemma sc_capture_example:
  "sc_capture_serial_data True 1 (Bytes (ascii ''3,0,0,1,1,1,25\<newline>'') # later) =
     (Inr ([[PyFloat 3, PyFloat 0, PyFloat 0, PyFloat 1, PyFloat 1, PyFloat 1, PyInt 25]],
           [[PyFloat 3, PyFloat 0, PyFloat 0, PyFloat 1, PyFloat 1, PyFloat 1, PyInt 25]], [], 0),
      Some \<lparr>is_open = False, incoming = later\<rparr>)"
proof -
  have ne: "ascii ''3,0,0,1,1,1,25\<newline>'' \<noteq> []"
    by (simp add: ascii_def)
  show ?thesis
    by (simp add: sc_capture_serial_data_def capture_frame_def read_all_def feed_def ne
        drain_example sc_handle_example sc_return_def release_def)
qed

subsection \<open>The record with three decimals\<close>

lemma float_fine:
  "py_float (str_of ''1.234'') = Inr 1.234" "py_float (str_of ''0.125'') = Inr 0.125"
  "py_float (str_of ''-0.375'') = Inr (- 0.375)" "py_float (str_of ''10'') = Inr 10"
  "py_float (str_of ''100'') = Inr 100"
  by (simp_all add: str_of_def parse_defs)

lemma fine_split:
  "py_split (str_of '','') fine_line = map str_of [''1.234'', ''0.125'', ''-0.375'', ''1'', ''10'', ''100'', ''25'']"
  by (simp add: fine_line_def str_of_def)

lemma parse_sensor_fine:
  "parse_sensor fine_line = Inr [PyFloat 1.234, PyFloat 0.125, PyFloat (- 0.375), PyFloat 1, PyFloat 10, PyFloat 100, PyInt 25]"
  by (simp add: parse_sensor_def fine_split field_float_def field_int_def py_index_def floats_eval
      ints_eval float_fine)

lemma sc_handle_fine:
  "sc_handle_line sc_init fine_line =
     \<lparr>sc_raw_data = [[PyFloat 1.234, PyFloat 0.125, PyFloat (- 0.375), PyFloat 1, PyFloat 10, PyFloat 100, PyInt 25]],
      sc_filtered_data = [[PyFloat 1.234, PyFloat 0.125, PyFloat (- 0.375), PyFloat 1, PyFloat 10, PyFloat 100, PyInt 25]],
      sc_quat_data = [], sc_invalid_count = 0\<rparr>"
proof -
  have "\<not> startswith fine_line (str_of ''Quaternion:'')"
    by (simp add: startswith_def fine_line_def str_of_def)
  moreover have "count_list fine_line 44 = 6"
    by (simp add: fine_line_def str_of_def)
  ultimately show ?thesis
    by (simp add: sc_handle_line_def parse_sensor_fine sc_init_def)
qed

lemma drain_fine:
  "drain h (ascii ''1.234,0.125,-0.375,1,10,100,25\<newline>'') st = Inr ([], h st fine_line)"
proof -
  have n: "newline \<in> set (ascii ''1.234,0.125,-0.375,1,10,100,25\<newline>'')"
    by (simp add: ascii_def newline_def)
  have i: "index_newline (ascii ''1.234,0.125,-0.375,1,10,100,25\<newline>'') = 30"
    by (simp add: ascii_def newline_def index_newline_def)
  have t: "take 30 (ascii ''1.234,0.125,-0.375,1,10,100,25\<newline>'') = ascii ''1.234,0.125,-0.375,1,10,100,25''"
    by (simp add: ascii_def)
  have d: "drop 31 (ascii ''1.234,0.125,-0.375,1,10,100,25\<newline>'') = []"
    by (simp add: ascii_def)
  have l: "decode_line (ascii ''1.234,0.125,-0.375,1,10,100,25'') = Inr fine_line"
    by (simp add: decode_line_def ascii_def fine_line_def str_of_def py_strip_def isspace_def)
  show ?thesis
    using drain_step [OF n, of fine_line h st] by (simp add: i t d l drain_stop)
qed

lemma sc_capture_fine:
  "sc_capture_serial_data True 1 [Bytes (ascii ''1.234,0.125,-0.375,1,10,100,25\<newline>'')] =
     (Inr ([[PyFloat 1.234, PyFloat 0.125, PyFloat (- 0.375), PyFloat 1, PyFloat 10, PyFloat 100, PyInt 25]],
           [[PyFloat 1.234, PyFloat 0.125, PyFloat (- 0.375), PyFloat 1, PyFloat 10, PyFloat 100, PyInt 25]], [], 0),
      Some \<lparr>is_open = False, incoming = []\<rparr>)"
proof -
  have ne: "ascii ''1.234,0.125,-0.375,1,10,100,25\<newline>'' \<noteq> []"
    by (simp add: ascii_def)
  show ?thesis
    by (simp add: sc_capture_serial_data_def capture_frame_def read_all_def feed_def ne
        drain_fine sc_handle_fine sc_return_def release_def)
qed

lemma format_2f_eval:
  "py_format_2f 1.234 = ''1.23''" "py_format_2f 0.125 = ''0.12''"
  "py_format_2f (- 0.375) = ''-0.38''" "py_format_2f 1 = ''1.00''"
  "py_format_2f 10 = ''10.00''" "py_format_2f 100 = ''100.00''"
  by (simp_all add: py_format_2f_def round_half_even_def decimal_string.simps digit_char_def)

lemma sc_save_fine:
  "sc_save_imu_data py_format_2f
     [[PyFloat 1.234, PyFloat 0.125, PyFloat (- 0.375), PyFloat 1, PyFloat 10, PyFloat 100, PyInt 25]]
     [[PyFloat 1.234, PyFloat 0.125, PyFloat (- 0.375), PyFloat 1, PyFloat 10, PyFloat 100, PyInt 25]] =
   Inr [[Value (PyFloat 1.234), Value (PyFloat 0.125), Value (PyFloat (- 0.375)), Value (PyFloat 1),
         Value (PyFloat 10), Value (PyFloat 100), Value (PyInt 25),
         Text2f ''1.23'', Text2f ''0.12'', Text2f ''-0.38'', Text2f ''1.00'', Text2f ''10.00'',
         Text2f ''100.00'', Value (PyInt 25)]]"
  using format_2f_eval
  by (simp add: sc_save_imu_data_def sc_formatted_def py_index_def format_2f_def)

text \<open>
  Claim C10, as stated, fails in its last clause. The record \<^verbatim>\<open>1.234,0.125,-0.375,1,10,100,25\<close> is
  captured into both lists alike, but in the row written for it the first raw column
  holds the value 1.234 and the first filtered column the text \<^verbatim>\<open>1.23\<close>, which reads
  back as another number.
\<close>

theorem filtered_columns_counterexample:
  "fst (sc_capture_serial_data True 1 [Bytes (ascii ''1.234,0.125,-0.375,1,10,100,25\<newline>'')]) =
     Inr ([[PyFloat 1.234, PyFloat 0.125, PyFloat (- 0.375), PyFloat 1, PyFloat 10, PyFloat 100, PyInt 25]],
          [[PyFloat 1.234, PyFloat 0.125, PyFloat (- 0.375), PyFloat 1, PyFloat 10, PyFloat 100, PyInt 25]], [], 0) \<and>
   sc_save_imu_data py_format_2f
     [[PyFloat 1.234, PyFloat 0.125, PyFloat (- 0.375), PyFloat 1, PyFloat 10, PyFloat 100, PyInt 25]]
     [[PyFloat 1.234, PyFloat 0.125, PyFloat (- 0.375), PyFloat 1, PyFloat 10, PyFloat 100, PyInt 25]] =
   Inr [[Value (PyFloat 1.234), Value (PyFloat 0.125), Value (PyFloat (- 0.375)), Value (PyFloat 1),
         Value (PyFloat 10), Value (PyFloat 100), Value (PyInt 25),
         Text2f ''1.23'', Text2f ''0.12'', Text2f ''-0.38'', Text2f ''1.00'', Text2f ''10.00'',
         Text2f ''100.00'', Value (PyInt 25)]] \<and>
   Text2f ''1.23'' \<noteq> Value (PyFloat 1.234) \<and>
   py_float (str_of ''1.23'') = Inr 1.23 \<and> (1.23 :: real) \<noteq> 1.234"
proof -
  have "py_float (str_of ''1.23'') = Inr 1.23"
    by (simp add: str_of_def parse_defs)
  with sc_capture_fine sc_save_fine show ?thesis
    by simp
qed

text \<open>The same capture: one record in both lists, and its written row.\<close>

theorem filtered_equals_raw_witness:
  "fst (sc_capture_serial_data True 1 [Bytes (ascii ''1.234,0.125,-0.375,1,10,100,25\<newline>'')]) =
     Inr ([[PyFloat 1.234, PyFloat 0.125, PyFloat (- 0.375), PyFloat 1, PyFloat 10, PyFloat 100, PyInt 25]],
          [[PyFloat 1.234, PyFloat 0.125, PyFloat (- 0.375), PyFloat 1, PyFloat 10, PyFloat 100, PyInt 25]], [], 0) \<and>
   sc_save_imu_data py_format_2f
     [[PyFloat 1.234, PyFloat 0.125, PyFloat (- 0.375), PyFloat 1, PyFloat 10, PyFloat 100, PyInt 25]]
     [[PyFloat 1.234, PyFloat 0.125, PyFloat (- 0.375), PyFloat 1, PyFloat 10, PyFloat 100, PyInt 25]] =
   Inr [[Value (PyFloat 1.234), Value (PyFloat 0.125), Value (PyFloat (- 0.375)), Value (PyFloat 1),
         Value (PyFloat 10), Value (PyFloat 100), Value (PyInt 25),
         Text2f ''1.23'', Text2f ''0.12'', Text2f ''-0.38'', Text2f ''1.00'', Text2f ''10.00'',
         Text2f ''100.00'', Value (PyInt 25)]]"
proof -
  have r: "fst (sc_capture_serial_data True 1 [Bytes (ascii ''1.234,0.125,-0.375,1,10,100,25\<newline>'')]) =
     Inr ([[PyFloat 1.234, PyFloat 0.125, PyFloat (- 0.375), PyFloat 1, PyFloat 10, PyFloat 100, PyInt 25]],
          [[PyFloat 1.234, PyFloat 0.125, PyFloat (- 0.375), PyFloat 1, PyFloat 10, PyFloat 100, PyInt 25]], [], 0)"
    unfolding sc_capture_fine by simp
  from filtered_equals_raw [OF r, of py_format_2f] have "\<exists>recs.
      list_all (\<lambda>(vals, t). length vals = 6) recs \<and>
      [[PyFloat 1.234, PyFloat 0.125, PyFloat (- 0.375), PyFloat 1, PyFloat 10, PyFloat 100, PyInt 25]] =
          map (\<lambda>(vals, t). map PyFloat vals @ [PyInt t]) recs \<and>
      sc_save_imu_data py_format_2f
          [[PyFloat 1.234, PyFloat 0.125, PyFloat (- 0.375), PyFloat 1, PyFloat 10, PyFloat 100, PyInt 25]]
          [[PyFloat 1.234, PyFloat 0.125, PyFloat (- 0.375), PyFloat 1, PyFloat 10, PyFloat 100, PyInt 25]] =
        Inr (map (\<lambda>(vals, t). map (\<lambda>x. Value (PyFloat x)) vals @ [Value (PyInt t)] @
                               map (\<lambda>x. Text2f (py_format_2f x)) vals @ [Value (PyInt t)]) recs)"
    by (rule conjunct2)
  then obtain recs where all:
    "list_all (\<lambda>(vals, t). length vals = 6) recs \<and>
      [[PyFloat 1.234, PyFloat 0.125, PyFloat (- 0.375), PyFloat 1, PyFloat 10, PyFloat 100, PyInt 25]] =
          map (\<lambda>(vals, t). map PyFloat vals @ [PyInt t]) recs \<and>
      sc_save_imu_data py_format_2f
          [[PyFloat 1.234, PyFloat 0.125, PyFloat (- 0.375), PyFloat 1, PyFloat 10, PyFloat 100, PyInt 25]]
          [[PyFloat 1.234, PyFloat 0.125, PyFloat (- 0.375), PyFloat 1, PyFloat 10, PyFloat 100, PyInt 25]] =
        Inr (map (\<lambda>(vals, t). map (\<lambda>x. Value (PyFloat x)) vals @ [Value (PyInt t)] @
                               map (\<lambda>x. Text2f (py_format_2f x)) vals @ [Value (PyInt t)]) recs)"
    ..
  note l = all [THEN conjunct1]
  note e = all [THEN conjunct2, THEN conjunct1]
  note w = all [THEN conjunct2, THEN conjunct2]
  from e obtain vals t where recs: "recs = [(vals, t)]"
    and v: "map PyFloat vals @ [PyInt t] =
        [PyFloat 1.234, PyFloat 0.125, PyFloat (- 0.375), PyFloat 1, PyFloat 10, PyFloat 100, PyInt 25]"
    by (cases recs) auto
  from l recs have "length vals = 6" by simp
  from six_values [OF this] v have "vals = [1.234, 0.125, - 0.375, 1, 10, 100]" "t = 25"
    by auto
  with w recs r format_2f_eval show ?thesis
    by simp
qed

subsection \<open>Transport faults\<close>

lemma capture_frame_fault:
  "Fault \<notin> set pre \<Longrightarrow> length pre < polls \<Longrightarrow>
   capture_frame h init ret True polls (pre @ Fault # post)
     = (Inl (SystemExit 1), Some \<lparr>is_open = False, incoming = post\<rparr>)"
  by (simp add: capture_frame_def capture_loop_fault release_def)

lemma capture_frame_no_port:
  "capture_frame h init ret False polls events = (Inl (SystemExit 1), None)"
  by (simp add: capture_frame_def release_def)

lemma acc_handle_example:
  "acc_handle_line acc_init example_line =
     \<lparr>acc_raw_data = [[PyFloat 3, PyFloat 0, PyFloat 0, PyFloat 1, PyFloat 1, PyFloat 1, PyInt 25]],
      acc_invalid_count = 0\<rparr>"
  by (simp add: acc_handle_line_def count_example parse_sensor_example acc_init_def)

lemma acc_capture_example:
  "acc_capture_serial_data True 1 (Bytes (ascii ''3,0,0,1,1,1,25\<newline>'') # later) =
     (Inr ([[PyFloat 3, PyFloat 0, PyFloat 0, PyFloat 1, PyFloat 1, PyFloat 1, PyInt 25]], 0),
      Some \<lparr>is_open = False, incoming = later\<rparr>)"
proof -
  have ne: "ascii ''3,0,0,1,1,1,25\<newline>'' \<noteq> []"
    by (simp add: ascii_def)
  show ?thesis
    by (simp add: acc_capture_serial_data_def capture_frame_def read_all_def feed_def ne
        drain_example acc_handle_example acc_return_def release_def)
qed

text \<open>
  Claim C8, as stated, fails. After one poll both scripts hold the example record and
  would return it; when the next read raises \<^verbatim>\<open>SerialException\<close> the handler calls
  \<^verbatim>\<open>sys.exit(1)\<close>, and the caller receives \<^verbatim>\<open>SystemExit\<close> instead of the record.
\<close>

theorem transport_fault_counterexample:
  "fst (sc_capture_serial_data True 1 [Bytes (ascii ''3,0,0,1,1,1,25\<newline>''), Fault]) =
     Inr ([[PyFloat 3, PyFloat 0, PyFloat 0, PyFloat 1, PyFloat 1, PyFloat 1, PyInt 25]],
          [[PyFloat 3, PyFloat 0, PyFloat 0, PyFloat 1, PyFloat 1, PyFloat 1, PyInt 25]], [], 0) \<and>
   fst (sc_capture_serial_data True 2 [Bytes (ascii ''3,0,0,1,1,1,25\<newline>''), Fault]) =
     Inl (SystemExit 1) \<and>
   fst (acc_capture_serial_data True 1 [Bytes (ascii ''3,0,0,1,1,1,25\<newline>''), Fault]) =
     Inr ([[PyFloat 3, PyFloat 0, PyFloat 0, PyFloat 1, PyFloat 1, PyFloat 1, PyInt 25]], 0) \<and>
   fst (acc_capture_serial_data True 2 [Bytes (ascii ''3,0,0,1,1,1,25\<newline>''), Fault]) =
     Inl (SystemExit 1)"
proof -
  have a: "fst (sc_capture_serial_data True 2 ([Bytes (ascii ''3,0,0,1,1,1,25\<newline>'')] @ Fault # [])) =
     Inl (SystemExit 1)"
    unfolding sc_capture_serial_data_def by (subst capture_frame_fault) simp_all
  have b: "fst (acc_capture_serial_data True 2 ([Bytes (ascii ''3,0,0,1,1,1,25\<newline>'')] @ Fault # [])) =
     Inl (SystemExit 1)"
    unfolding acc_capture_serial_data_def by (subst capture_frame_fault) simp_all
  from a b show ?thesis
    unfolding sc_capture_example acc_capture_example by simp
qed

text \<open>
  Claim C8, amended. When a read raises \<^verbatim>\<open>SerialException\<close> within the polls the clock
  admits, the loop ends with that read (what the port would have delivered later stays
  unread), the port is closed, and the run ends in \<^verbatim>\<open>SystemExit(1)\<close>: nothing is returned,
  the data collected so far is dropped. A port that cannot be opened ends the run the
  same way, with no port to close.
\<close>

theorem transport_fault_exits:
  assumes "Fault \<notin> set pre" and "length pre < polls"
  shows "sc_capture_serial_data True polls (pre @ Fault # post) =
           (Inl (SystemExit 1), Some \<lparr>is_open = False, incoming = post\<rparr>) \<and>
         acc_capture_serial_data True polls (pre @ Fault # post) =
           (Inl (SystemExit 1), Some \<lparr>is_open = False, incoming = post\<rparr>) \<and>
         sc_capture_serial_data False polls events = (Inl (SystemExit 1), None) \<and>
         acc_capture_serial_data False polls events = (Inl (SystemExit 1), None)"
  using assms
  by (simp add: sc_capture_serial_data_def acc_capture_serial_data_def capture_frame_fault
      capture_frame_no_port)

text \<open>The example record arrives, the second read fails, a third block is never read.\<close>

theorem transport_fault_exits_witness:
  "sc_capture_serial_data True 2 [Bytes (ascii ''3,0,0,1,1,1,25\<newline>''), Fault, Bytes [0x0A]] =
     (Inl (SystemExit 1), Some \<lparr>is_open = False, incoming = [Bytes [0x0A]]\<rparr>) \<and>
   acc_capture_serial_data True 2 [Bytes (ascii ''3,0,0,1,1,1,25\<newline>''), Fault, Bytes [0x0A]] =
     (Inl (SystemExit 1), Some \<lparr>is_open = False, incoming = [Bytes [0x0A]]\<rparr>)"
proof -
  have h1: "Fault \<notin> set [Bytes (ascii ''3,0,0,1,1,1,25\<newline>'')]" by simp
  have h2: "length [Bytes (ascii ''3,0,0,1,1,1,25\<newline>'')] < 2" by simp
  from transport_fault_exits [OF h1 h2, of "[Bytes [0x0A]]" "[]"] show ?thesis by simp
qed

subsection \<open>Statistics\<close>

lemma in_order_map_Inr: "in_order (map Inr xs) = Inr xs"
  by (induction xs) simp_all

lemma chan_mean_empty: "chan_mean [] = Inl ZeroDivisionError"
  by (simp add: chan_mean_def)

lemma idp_calc_stats_empty: "idp_calc_stats ([] # chans) u = Inl ZeroDivisionError"
  by (simp add: idp_calc_stats_def chan_mean_empty)

lemma pi_calc_stats_empty:
  "[] \<in> set data \<Longrightarrow> pi_calc_stats data u = Inr \<lparr>bias = [0, 0, 0], std = [0, 0, 0], unit = u\<rparr>"
  by (auto simp: pi_calc_stats_def list_all_iff)

lemma pi_calc_stats_total: "\<exists>s. pi_calc_stats data u = Inr s \<and> unit s = u"
proof (cases "list_all (\<lambda>ch. length ch > 0) data")
  case False
  then show ?thesis by (simp add: pi_calc_stats_def)
next
  case True
  have m: "list_all (\<lambda>ch. length ch > 0) d \<Longrightarrow> in_order (map chan_mean d) = Inr (map (\<lambda>ch. sum_list ch / real (length ch)) d)" for d
    by (induction d) (simp_all add: chan_mean_def)
  have s: "list_all (\<lambda>ch. length ch > 0) d \<Longrightarrow> \<exists>ss. in_order (map chan_std (zip d ms)) = Inr ss" for d ms
  proof (induction d arbitrary: ms)
    case Nil
    show ?case by simp
  next
    case (Cons ch d)
    show ?case
    proof (cases ms)
      case Nil
      then show ?thesis by simp
    next
      case (Cons m ms')
      from Cons.IH [of ms'] Cons.prems obtain ss where "in_order (map chan_std (zip d ms')) = Inr ss"
        by auto
      moreover from Cons.prems obtain s0 where "chan_std (ch, m) = Inr s0"
        by (auto simp: chan_std_def)
      ultimately show ?thesis using Cons by simp
    qed
  qed
  from s [OF True] obtain ss where
    "in_order (map chan_std (zip data (map (\<lambda>ch. sum_list ch / real (length ch)) data))) = Inr ss"
    by blast
  with True show ?thesis by (simp add: pi_calc_stats_def m)
qed

text \<open>
  Claim C2 fails on \<^verbatim>\<open>imu_data_process.py\<close>: its \<^verbatim>\<open>calc_stats\<close> divides by the length of
  each channel without a guard, so a channel without samples raises
  \<^verbatim>\<open>ZeroDivisionError\<close>; an input without a valid record (the empty file, for one) ends
  the whole run that way. The guarded \<^verbatim>\<open>calc_stats\<close> of \<^verbatim>\<open>process_imu.py\<close> returns zeros
  and the unit label there.
\<close>

theorem idp_empty_channel_raises:
  "idp_calc_stats [[], [], []] u = Inl ZeroDivisionError \<and>
   idp_process_imu_data calib [] = Inl ZeroDivisionError \<and>
   pi_calc_stats [[], [], []] u = Inr \<lparr>bias = [0, 0, 0], std = [0, 0, 0], unit = u\<rparr>"
  by (simp add: idp_calc_stats_empty idp_process_imu_data_def idp_init_def pi_calc_stats_empty)

subsection \<open>One line of \<^verbatim>\<open>imu_data_process.py\<close>\<close>

lemma idp_parse_length: "idp_parse line = Inr parts \<Longrightarrow> length parts = 7"
  by (auto simp: idp_parse_def bnd_def split: sum.splits if_splits)

lemma idp_line_invalid: "idp_parse line = Inl e \<Longrightarrow> idp_line calib n line st = st"
  by (simp add: idp_line_def)

lemma idp_accel_loop_frame:
  "idp_accel_loop calib parts idxs st = (r, st') \<Longrightarrow>
   idp_time_stamps st' = idp_time_stamps st \<and> idp_temperature st' = idp_temperature st \<and>
   idp_temp_windows st' = idp_temp_windows st \<and> idp_gyro st' = idp_gyro st"
  by (induction idxs arbitrary: st) (auto split: sum.splits)

lemma idp_gyro_loop_frame:
  "idp_gyro_loop calib parts idxs st = (r, st') \<Longrightarrow>
   idp_time_stamps st' = idp_time_stamps st \<and> idp_temperature st' = idp_temperature st \<and>
   idp_temp_windows st' = idp_temp_windows st \<and> idp_accel st' = idp_accel st"
  by (induction idxs arbitrary: st) (auto split: sum.splits)

text \<open>Whatever the calibration, a line either leaves timestamps, temperatures and windows
  alone, or adds one sample to each, stamped with the line number.\<close>

lemma idp_line_cases:
  "(idp_time_stamps (idp_line calib n line st) = idp_time_stamps st \<and>
    idp_temperature (idp_line calib n line st) = idp_temperature st \<and>
    idp_temp_windows (idp_line calib n line st) = idp_temp_windows st) \<or>
   (\<exists>v. idp_time_stamps (idp_line calib n line st) = idp_time_stamps st @ [real n * 0.005] \<and>
    idp_temperature (idp_line calib n line st) = idp_temperature st @ [v] \<and>
    idp_temp_windows (idp_line calib n line st) =
      dd_append (py_trunc (real n * 0.005 * 10)) v (idp_temp_windows st))"
proof (cases "idp_parse line")
  case (Inl e)
  then show ?thesis by (simp add: idp_line_invalid)
next
  case (Inr parts)
  obtain r1 st1 where a: "idp_accel_loop calib parts [0, 1, 2] st = (r1, st1)"
    by (cases "idp_accel_loop calib parts [0, 1, 2] st")
  obtain r2 st2 where g: "idp_gyro_loop calib parts [0, 1, 2] st1 = (r2, st2)"
    by (cases "idp_gyro_loop calib parts [0, 1, 2] st1")
  note fa = idp_accel_loop_frame [OF a] and fg = idp_gyro_loop_frame [OF g]
  show ?thesis
  proof (cases r1)
    case (Some e)
    with Inr a fa show ?thesis by (simp add: idp_line_def)
  next
    case None
    show ?thesis
    proof (cases r2)
      case (Some e)
      with Inr a g None fa fg show ?thesis by (simp add: idp_line_def)
    next
      case n2: None
      with Inr a g None fa fg show ?thesis by (simp add: idp_line_def Let_def)
    qed
  qed
qed

lemma three_channels: "length chans = 3 \<Longrightarrow> \<exists>a b c. chans = [a, b, c]"
  by (cases chans; cases "tl chans"; cases "tl (tl chans)") auto

lemma idp_line_valid:
  assumes p: "idp_parse line = Inr parts" and wf: "well_formed calib"
    and la: "length (idp_accel st) = 3" and lg: "length (idp_gyro st) = 3"
  shows "idp_line calib n line st =
     st\<lparr>idp_accel := map (\<lambda>i. idp_accel st ! i @ [(parts ! i - accel_bias calib ! i) * accel_scale calib ! i]) [0, 1, 2],
        idp_gyro := map (\<lambda>i. idp_gyro st ! i @ [parts ! (i + 3) - gyro_bias calib ! i]) [0, 1, 2],
        idp_time_stamps := idp_time_stamps st @ [real n * 0.005],
        idp_temp_windows := dd_append (py_trunc (real n * 0.005 * 10)) (parts ! 6) (idp_temp_windows st),
        idp_temperature := idp_temperature st @ [parts ! 6]\<rparr>"
proof -
  from la obtain a0 a1 a2 where a: "idp_accel st = [a0, a1, a2]"
    using three_channels by blast
  from lg obtain g0 g1 g2 where g: "idp_gyro st = [g0, g1, g2]"
    using three_channels by blast
  have l: "length parts = 7" using p by (rule idp_parse_length)
  have ca: "cal_accel calib parts i = Inr ((parts ! i - accel_bias calib ! i) * accel_scale calib ! i)"
    if "i < 3" for i
    using that wf l by (simp add: cal_accel_def py_index_def well_formed_def)
  have cg: "cal_gyro calib parts (i + 3) i = Inr (parts ! (i + 3) - gyro_bias calib ! i)"
    if "i < 3" for i
    using that wf l by (simp add: cal_gyro_def py_index_def well_formed_def)
  have al: "idp_accel_loop calib parts [0, 1, 2] st =
      (None, st\<lparr>idp_accel := map (\<lambda>i. idp_accel st ! i @ [(parts ! i - accel_bias calib ! i) * accel_scale calib ! i]) [0, 1, 2]\<rparr>)"
    by (simp add: ca a append_at_def)
  have gl: "idp_gyro_loop calib parts [0, 1, 2] st' =
      (None, st'\<lparr>idp_gyro := map (\<lambda>i. idp_gyro st ! i @ [parts ! (i + 3) - gyro_bias calib ! i]) [0, 1, 2]\<rparr>)"
    if "idp_gyro st' = idp_gyro st" for st'
    using cg [of 0] cg [of 1] cg [of 2] by (simp add: g that append_at_def)
  show ?thesis
    unfolding idp_line_def p sum.case al prod.case option.case
    by (subst gl) (simp_all add: Let_def)
qed

subsection \<open>One row of \<^verbatim>\<open>process_imu.py\<close>\<close>

lemma in_order_error: "in_order ms = Inl e \<Longrightarrow> Inl e \<in> set ms"
proof (induction ms)
  case Nil
  then show ?case by simp
next
  case (Cons m ms)
  then show ?case
    by (cases m; cases "in_order ms") auto
qed

lemma py_float_error: "py_float s = Inl e \<Longrightarrow> e = ValueError"
  by (auto simp: py_float_def Let_def split: prod.splits option.splits if_splits)

lemma py_int_error: "py_int s = Inl e \<Longrightarrow> e = ValueError"
  by (auto simp: py_int_def split: prod.splits option.splits if_splits)

lemma floats_error: "in_order (map py_float xs) = Inl e \<Longrightarrow> e = ValueError"
  using in_order_error [of "map py_float xs" e] py_float_error by auto

lemma pi_convert_error: "pi_convert parts = Inl e \<Longrightarrow> e = ValueError"
  unfolding pi_convert_def
  by (auto simp: bnd_def split: sum.splits dest: floats_error py_int_error)

lemma pi_convert_lengths:
  assumes "pi_convert parts = Inr r" and "length parts = 14"
  shows "length (accel_raw r) = 3 \<and> length (gyro_raw r) = 3 \<and>
         length (accel_filt_raw r) = 3 \<and> length (gyro_filt_raw r) = 3"
proof -
  from assms(1) obtain a g t af gf tf where
    a: "in_order (map py_float (take 3 parts)) = Inr a" and
    g: "in_order (map py_float (take 3 (drop 3 parts))) = Inr g" and
    af: "in_order (map py_float (take 3 (drop 7 parts))) = Inr af" and
    gf: "in_order (map py_float (take 3 (drop 10 parts))) = Inr gf" and
    r: "r = \<lparr>accel_raw = a, gyro_raw = g, temp = t, accel_filt_raw = af, gyro_filt_raw = gf,
              temp_filt_raw = tf\<rparr>"
    by (auto simp: pi_convert_def bnd_def split: sum.splits)
  from in_order_length [OF a] in_order_length [OF g] in_order_length [OF af] in_order_length [OF gf]
  show ?thesis using assms(2) by (simp add: r)
qed

lemma store3_eq:
  "length chans = 3 \<Longrightarrow> store3 chans vals = map (\<lambda>i. chans ! i @ [vals ! i]) [0, 1, 2]"
  using three_channels [of chans] by (auto simp: store3_def append_at_def)

lemma pi_store_valid:
  assumes wf: "well_formed calib" and la: "length (accel_raw r) = 3" and lg: "length (gyro_raw r) = 3"
    and sh: "pi_shape st"
  shows "pi_store calib r st = Inr (pi_sample calib r st)"
proof -
  have ca: "cal_accel calib (accel_raw r) i = Inr ((accel_raw r ! i - accel_bias calib ! i) * accel_scale calib ! i)"
    if "i < 3" for i
    using that wf la by (simp add: cal_accel_def py_index_def well_formed_def)
  have cg: "cal_gyro calib (gyro_raw r) i i = Inr (gyro_raw r ! i - gyro_bias calib ! i)"
    if "i < 3" for i
    using that wf lg by (simp add: cal_gyro_def py_index_def well_formed_def)
  have ia: "in_order (map (cal_accel calib (accel_raw r)) [0, 1, 2]) =
      Inr (map (\<lambda>i. (accel_raw r ! i - accel_bias calib ! i) * accel_scale calib ! i) [0, 1, 2])"
    using ca [of 0] ca [of 1] ca [of 2] by simp
  have ig: "in_order (map (\<lambda>i. cal_gyro calib (gyro_raw r) i i) [0, 1, 2]) =
      Inr (map (\<lambda>i. gyro_raw r ! i - gyro_bias calib ! i) [0, 1, 2])"
    using cg [of 0] cg [of 1] cg [of 2] by simp
  show ?thesis
    unfolding pi_store_def ia ig using sh
    by (simp add: pi_sample_def pi_shape_def store3_eq Let_def)
qed

lemma pi_sample_shape: "pi_shape (pi_sample calib r st)"
  by (simp add: pi_shape_def pi_sample_def)

text \<open>What a row does under a well-formed calibration: nothing unless it has fourteen
  columns that all convert, and then it adds one sample.\<close>

lemma pi_row_cases:
  assumes wf: "well_formed calib" and sh: "pi_shape st"
  shows "pi_row calib parts st =
     (if length parts = 14 then
        (case pi_convert parts of Inr r \<Rightarrow> Inr (pi_sample calib r st) | Inl e \<Rightarrow> Inr st)
      else Inr st)"
proof (cases "length parts = 14")
  case False
  then show ?thesis by (simp add: pi_row_def)
next
  case True
  show ?thesis
  proof (cases "pi_convert parts")
    case (Inl e)
    have "e = ValueError"
      using Inl by (rule pi_convert_error)
    with Inl True show ?thesis by (simp add: pi_row_def pi_body_def)
  next
    case (Inr r)
    from pi_convert_lengths [OF Inr True] pi_store_valid [OF wf _ _ sh, of r]
    show ?thesis using True Inr by (simp add: pi_row_def pi_body_def)
  qed
qed

lemma well_formed_default: "well_formed default_calibration"
  by (simp add: well_formed_def default_calibration_def)

lemma well_formed_example: "well_formed example_calibration"
  by (simp add: well_formed_def example_calibration_def)

lemma pi_shape_init: "pi_shape pi_init"
  by (simp add: pi_shape_def pi_init_def)

lemma idp_parse_x: "idp_parse (str_of ''x'') = Inl ValueError"
proof -
  have "py_strip (str_of ''x'') = str_of ''x''"
    by (simp add: str_of_def py_strip_def isspace_def)
  moreover have "py_split (str_of '','') (str_of ''x'') = [str_of ''x'']"
    by (simp add: str_of_def)
  ultimately show ?thesis
    by (simp add: idp_parse_def floats_eval)
qed

lemma length_example_row14: "length example_row14 = 14"
  by (simp add: example_row14_def)

subsection \<open>Timestamps\<close>

text \<open>
  Claim C1 fails on \<^verbatim>\<open>imu_data_process.py\<close>, which stamps a record with
  \<^verbatim>\<open>line_num * 0.005\<close>, the index of its line in the file: an invalid line in front of
  the example record moves its timestamp from 0 to 0.005. \<^verbatim>\<open>process_imu.py\<close> counts
  valid rows, and the same insertion changes nothing there.
\<close>

theorem idp_timestamp_counts_lines:
  "idp_time_stamps (idp_loop default_calibration 0 [example_line] idp_init) = [0] \<and>
   idp_time_stamps (idp_loop default_calibration 0 [str_of ''x'', example_line] idp_init) = [0.005] \<and>
   map_sum id pi_time_stamps (pi_loop default_calibration [example_row14] pi_init) = Inr [0] \<and>
   map_sum id pi_time_stamps (pi_loop default_calibration [[str_of ''x''], example_row14] pi_init) = Inr [0]"
proof -
  have s: "length (idp_accel idp_init) = 3" "length (idp_gyro idp_init) = 3"
    by (simp_all add: idp_init_def)
  have a: "idp_time_stamps (idp_line default_calibration n example_line idp_init) = [real n * 0.005]" for n
    unfolding idp_line_valid [OF idp_parse_example well_formed_default s]
    by (simp add: idp_init_def)
  have b: "idp_line default_calibration 0 (str_of ''x'') idp_init = idp_init"
    by (simp add: idp_line_invalid [OF idp_parse_x])
  have c: "pi_row default_calibration example_row14 pi_init =
      Inr (pi_sample default_calibration
        \<lparr>accel_raw = [3, 0, 0], gyro_raw = [1, 1, 1], temp = 25,
         accel_filt_raw = [3, 0, 0], gyro_filt_raw = [1, 1, 1], temp_filt_raw = 25\<rparr> pi_init)"
    by (simp add: pi_row_cases [OF well_formed_default pi_shape_init] length_example_row14
        pi_convert_example)
  have d: "pi_row default_calibration [str_of ''x''] pi_init = Inr pi_init"
    by (simp add: pi_row_cases [OF well_formed_default pi_shape_init])
  have e: "pi_time_stamps (pi_sample calib r pi_init) = [0]" for calib r
    by (simp add: pi_sample_def pi_init_def)
  from a [of 0] a [of 1] show ?thesis
    by (simp add: b c d e)
qed

subsection \<open>The header row\<close>

lemma pi_finish_init:
  "pi_finish pi_init =
     Inr \<lparr>pi_out_accel = \<lparr>bias = [0, 0, 0], std = [0, 0, 0], unit = ''g''\<rparr>,
          pi_out_gyro = \<lparr>bias = [0, 0, 0], std = [0, 0, 0], unit = ''dps''\<rparr>,
          pi_out_temp_raw = ([], []),
          pi_out_accel_raw = ([], [[], [], []]),
          pi_out_gyro_raw = ([], [[], [], []]),
          pi_out_accel_filt = ([], [[], [], []]),
          pi_out_gyro_filt = ([], [[], [], []]),
          pi_out_temp_filt = ([], []),
          pi_out_temp_avg = ([], [])\<rparr>"
  by (simp add: pi_finish_def pi_init_def pi_calc_stats_empty window_averages_def)

text \<open>
  Claim C9. \<^verbatim>\<open>process_imu.py\<close> takes the first row of its input away before it looks at
  any row: the result does not depend on that row. The example record is a valid row
  (alone in the loop it yields one sample), yet as the only row of a file it is lost and
  the result is that of an input without records. On an input without rows the
  \<^verbatim>\<open>next\<close> raises \<^verbatim>\<open>StopIteration\<close>, which nothing catches.
\<close>

theorem pi_first_row_discarded:
  "pi_process_imu_data calib [] = Inl StopIteration \<and>
   pi_process_imu_data calib (first # rows) = pi_process_imu_data calib (other # rows) \<and>
   pi_process_imu_data calib (first # rows) = bnd (pi_loop calib rows pi_init) pi_finish \<and>
   map_sum id pi_temperature (pi_loop default_calibration [example_row14] pi_init) = Inr [25] \<and>
   map_sum id pi_out_temp_raw (pi_process_imu_data default_calibration [example_row14]) = Inr ([], []) \<and>
   pi_process_imu_data default_calibration [example_row14] = pi_finish pi_init"
proof -
  have c: "pi_row default_calibration example_row14 pi_init =
      Inr (pi_sample default_calibration
        \<lparr>accel_raw = [3, 0, 0], gyro_raw = [1, 1, 1], temp = 25,
         accel_filt_raw = [3, 0, 0], gyro_filt_raw = [1, 1, 1], temp_filt_raw = 25\<rparr> pi_init)"
    by (simp add: pi_row_cases [OF well_formed_default pi_shape_init] length_example_row14
        pi_convert_example)
  have e: "pi_temperature (pi_sample calib r pi_init) = [temp r]" for calib r
    by (simp add: pi_sample_def pi_init_def)
  show ?thesis
    by (simp add: pi_process_imu_data_def c e pi_finish_init)
qed

subsection \<open>Classifying a line of seven fields\<close>

lemma length_py_split: "length (py_split [c] s) = count_list s c + 1"
proof (induction s)
  case Nil
  show ?case by simp
next
  case (Cons x s)
  then show ?case
    by (cases "py_split [c] s") (auto simp: py_split_ne)
qed

lemma comma: "str_of '','' = [44]"
  by (simp add: str_of_def)

lemma parse_sensor_fields:
  assumes "count_list line 44 = 6"
  shows "parse_sensor line =
     bnd (in_order (map py_float (take 6 (py_split (str_of '','') line)))) (\<lambda>fs.
     bnd (py_int (py_split (str_of '','') line ! 6)) (\<lambda>t. Inr (map PyFloat fs @ [PyInt t])))"
proof -
  have "length (py_split (str_of '','') line) = 7"
    using assms by (simp add: comma length_py_split)
  then obtain p0 p1 p2 p3 p4 p5 p6 where
    p: "py_split (str_of '','') line = [p0, p1, p2, p3, p4, p5, p6]"
    using seven_fields by blast
  show ?thesis
    unfolding parse_sensor_def p Let_def
    by (simp add: field_float_def field_int_def py_index_def bnd_def split: sum.splits)
qed

lemma float_temp_split:
  "py_split (str_of '','') float_temp_line = map str_of [''3'', ''0'', ''0'', ''1'', ''1'', ''1'', ''25.5'']"
  by (simp add: float_temp_line_def str_of_def)

lemma float_temp_count: "count_list float_temp_line 44 = 6"
  by (simp add: float_temp_line_def str_of_def)

lemma idp_parse_float_temp: "idp_parse float_temp_line = Inr [3, 0, 0, 1, 1, 1, 25.5]"
proof -
  have "py_strip float_temp_line = float_temp_line"
    by (simp add: float_temp_line_def str_of_def py_strip_def isspace_def)
  then show ?thesis
    by (simp add: idp_parse_def float_temp_split floats_eval)
qed

text \<open>
  Claim C6, as stated, fails on \<^verbatim>\<open>imu_data_process.py\<close>: the line
  \<^verbatim>\<open>3,0,0,1,1,1,25.5\<close> has six commas and a temperature field that \<^verbatim>\<open>int()\<close> rejects,
  and the script accepts it, with the temperature 25.5.
\<close>

theorem float_temperature_counterexample:
  "count_list float_temp_line 44 = 6 \<and>
   py_int (py_split (str_of '','') float_temp_line ! 6) = Inl ValueError \<and>
   idp_parse float_temp_line = Inr [3, 0, 0, 1, 1, 1, 25.5] \<and>
   idp_temperature (idp_loop default_calibration 0 [float_temp_line] idp_init) = [25.5]"
proof -
  have s: "length (idp_accel idp_init) = 3" "length (idp_gyro idp_init) = 3"
    by (simp_all add: idp_init_def)
  have "idp_temperature (idp_line default_calibration 0 float_temp_line idp_init) = [25.5]"
    unfolding idp_line_valid [OF idp_parse_float_temp well_formed_default s]
    by (simp add: idp_init_def)
  then show ?thesis
    by (simp add: float_temp_count float_temp_split ints_eval idp_parse_float_temp)
qed

text \<open>
  Claim C6, amended. For a line with exactly six commas the two capture scripts convert
  fields 0 to 5 with \<^verbatim>\<open>float\<close> and field 6 with \<^verbatim>\<open>int\<close>; the line gives a record when all
  seven conversions succeed and is counted invalid otherwise (in the quaternion-capable
  script this is the branch of the lines that do not start with \<^verbatim>\<open>Quaternion:\<close>). So a
  temperature field such as \<^verbatim>\<open>25.5\<close> makes the line invalid there.
  \<^verbatim>\<open>imu_data_process.py\<close> converts all the fields of its line with \<^verbatim>\<open>float\<close> and accepts
  the line when there are seven of them, the temperature included.
\<close>

theorem seven_field_classification:
  assumes "count_list line 44 = 6"
  shows "(parse_sensor line = Inr row \<longleftrightarrow>
            (\<exists>fs t. in_order (map py_float (take 6 (py_split (str_of '','') line))) = Inr fs \<and>
                    py_int (py_split (str_of '','') line ! 6) = Inr t \<and>
                    row = map PyFloat fs @ [PyInt t])) \<and>
         acc_handle_line ast line =
           (case parse_sensor line of
              Inr r \<Rightarrow> ast\<lparr>acc_raw_data := acc_raw_data ast @ [r]\<rparr>
            | Inl e \<Rightarrow> ast\<lparr>acc_invalid_count := acc_invalid_count ast + 1\<rparr>) \<and>
         (\<not> startswith line (str_of ''Quaternion:'') \<longrightarrow>
            sc_handle_line sst line =
              (case parse_sensor line of
                 Inr r \<Rightarrow> sst\<lparr>sc_raw_data := sc_raw_data sst @ [r],
                              sc_filtered_data := sc_filtered_data sst @ [r]\<rparr>
               | Inl e \<Rightarrow> sst\<lparr>sc_invalid_count := sc_invalid_count sst + 1\<rparr>)) \<and>
         (\<forall>e. py_int (py_split (str_of '','') line ! 6) = Inl e \<longrightarrow>
            (\<exists>e'. parse_sensor line = Inl e') \<and>
            acc_handle_line ast line = ast\<lparr>acc_invalid_count := acc_invalid_count ast + 1\<rparr>) \<and>
         (idp_parse line = Inr vs \<longleftrightarrow>
            in_order (map py_float (py_split (str_of '','') (py_strip line))) = Inr vs \<and> length vs = 7)"
proof -
  note ps = parse_sensor_fields [OF assms]
  have a: "parse_sensor line = Inr row \<longleftrightarrow>
            (\<exists>fs t. in_order (map py_float (take 6 (py_split (str_of '','') line))) = Inr fs \<and>
                    py_int (py_split (str_of '','') line ! 6) = Inr t \<and>
                    row = map PyFloat fs @ [PyInt t])"
    unfolding ps by (auto simp: bnd_def split: sum.splits)
  have b: "acc_handle_line ast line =
           (case parse_sensor line of
              Inr r \<Rightarrow> ast\<lparr>acc_raw_data := acc_raw_data ast @ [r]\<rparr>
            | Inl e \<Rightarrow> ast\<lparr>acc_invalid_count := acc_invalid_count ast + 1\<rparr>)"
    using assms by (simp add: acc_handle_line_def)
  have c: "\<not> startswith line (str_of ''Quaternion:'') \<longrightarrow>
            sc_handle_line sst line =
              (case parse_sensor line of
                 Inr r \<Rightarrow> sst\<lparr>sc_raw_data := sc_raw_data sst @ [r],
                              sc_filtered_data := sc_filtered_data sst @ [r]\<rparr>
               | Inl e \<Rightarrow> sst\<lparr>sc_invalid_count := sc_invalid_count sst + 1\<rparr>)"
    using assms by (simp add: sc_handle_line_def)
  have d: "\<exists>e'. parse_sensor line = Inl e'"
    if "py_int (py_split (str_of '','') line ! 6) = Inl e" for e
    unfolding ps using that by (auto simp: bnd_def split: sum.splits)
  have e: "idp_parse line = Inr vs \<longleftrightarrow>
            in_order (map py_float (py_split (str_of '','') (py_strip line))) = Inr vs \<and> length vs = 7"
    by (auto simp: idp_parse_def bnd_def split: sum.splits)
  from d have d': "\<forall>e. py_int (py_split (str_of '','') line ! 6) = Inl e \<longrightarrow>
            (\<exists>e'. parse_sensor line = Inl e') \<and>
            acc_handle_line ast line = ast\<lparr>acc_invalid_count := acc_invalid_count ast + 1\<rparr>"
    unfolding b by auto
  from a b c d' e show ?thesis by blast
qed

text \<open>The line with the temperature 25.5: the capture script counts it invalid.\<close>

theorem seven_field_classification_witness:
  "count_list float_temp_line 44 = 6 \<and>
   acc_handle_line acc_init float_temp_line = \<lparr>acc_raw_data = [], acc_invalid_count = 1\<rparr>"
proof -
  have i: "py_int (py_split (str_of '','') float_temp_line ! 6) = Inl ValueError"
    by (simp add: float_temp_split ints_eval)
  from seven_field_classification [OF float_temp_count, of _ acc_init _ _] i
  have "acc_handle_line acc_init float_temp_line = acc_init\<lparr>acc_invalid_count := acc_invalid_count acc_init + 1\<rparr>"
    by blast
  then show ?thesis
    by (simp add: float_temp_count acc_init_def)
qed

subsection \<open>Temperature windows\<close>

lemma dd_get_append:
  "dd_get (dd_append k v tw) k' = (if k' = k then dd_get tw k @ [v] else dd_get tw k')"
  by (induction tw) (auto simp: dd_get_def)

lemma dd_keys_append:
  "map fst (dd_append k v tw) = (if k \<in> set (map fst tw) then map fst tw else map fst tw @ [k])"
proof (induction tw)
  case Nil
  show ?case by simp
next
  case (Cons kv tw)
  obtain k' vs where kv: "kv = (k', vs)" by (cases kv)
  show ?case
  proof (cases "k = k'")
    case True
    then show ?thesis by (simp add: kv)
  next
    case False
    with Cons show ?thesis by (simp add: kv)
  qed
qed

lemma py_trunc_floor: "0 \<le> x \<Longrightarrow> py_trunc x = \<lfloor>x\<rfloor>"
  by (simp add: py_trunc_def)

lemma spec_bucket_append:
  "length ts = length temps \<Longrightarrow>
   spec_bucket (ts @ [t]) (temps @ [v]) k = spec_bucket ts temps k @ (if \<lfloor>t * 10\<rfloor> = k then [v] else [])"
  by (simp add: spec_bucket_def)

lemma windows_ok_empty: "windows_ok [] [] []"
  by (simp add: windows_ok_def dd_get_def spec_bucket_def)

lemma windows_ok_append:
  assumes ok: "windows_ok ts temps tw" and t: "0 \<le> t"
  shows "windows_ok (ts @ [t]) (temps @ [v]) (dd_append (py_trunc (t * 10)) v tw)"
proof -
  have tr: "py_trunc (t * 10) = \<lfloor>t * 10\<rfloor>"
    using t by (simp add: py_trunc_floor)
  from ok have len: "length ts = length temps" and d: "distinct (map fst tw)"
    and ks: "set (map fst tw) = set (map (\<lambda>t. \<lfloor>t * 10\<rfloor>) ts)"
    and g: "dd_get tw k = spec_bucket ts temps k" for k
    by (simp_all add: windows_ok_def)
  have "distinct (map fst (dd_append \<lfloor>t * 10\<rfloor> v tw))"
    using d by (simp add: dd_keys_append)
  moreover have "set (map fst (dd_append \<lfloor>t * 10\<rfloor> v tw)) = set (map (\<lambda>t. \<lfloor>t * 10\<rfloor>) (ts @ [t]))"
    using ks by (auto simp: dd_keys_append)
  moreover have "dd_get (dd_append \<lfloor>t * 10\<rfloor> v tw) k = spec_bucket (ts @ [t]) (temps @ [v]) k" for k
    by (simp add: dd_get_append g spec_bucket_append [OF len])
  ultimately show ?thesis
    using len by (simp add: windows_ok_def tr)
qed

lemma windows_loop_eq:
  "windows_loop val tw idxs (cs, avs) =
     (cs @ map (\<lambda>k. real_of_int k * 0.1 + 0.05) (filter (\<lambda>k. dd_get tw k \<noteq> []) idxs),
      avs @ map (\<lambda>k. sum_list (map val (dd_get tw k)) / real (length (dd_get tw k)))
              (filter (\<lambda>k. dd_get tw k \<noteq> []) idxs))"
  by (induction idxs arbitrary: cs avs) (simp_all add: Let_def)

lemma spec_bucket_nonempty:
  assumes "length ts = length temps" and "t \<in> set ts"
  shows "spec_bucket ts temps \<lfloor>t * 10\<rfloor> \<noteq> []"
proof -
  from assms(2) obtain i where i: "i < length ts" "ts ! i = t"
    by (auto simp: in_set_conv_nth)
  with assms(1) have "(t, temps ! i) \<in> set (zip ts temps)"
    by (auto simp: in_set_zip)
  then have "(t, temps ! i) \<in> set (filter (\<lambda>(t', v). \<lfloor>t' * 10\<rfloor> = \<lfloor>t * 10\<rfloor>) (zip ts temps))"
    by simp
  then show ?thesis
    unfolding spec_bucket_def by (metis empty_iff list.map_disc_iff list.set(1))
qed

lemma window_averages_spec:
  assumes ok: "windows_ok ts temps tw"
  shows "window_averages val tw = spec_window_averages val ts temps"
proof -
  from ok have len: "length ts = length temps" and d: "distinct (map fst tw)"
    and ks: "set (map fst tw) = set (map (\<lambda>t. \<lfloor>t * 10\<rfloor>) ts)"
    and g: "dd_get tw k = spec_bucket ts temps k" for k
    by (simp_all add: windows_ok_def)
  have "sorted (sort (map fst tw))" "distinct (sort (map fst tw))"
    "sorted (sort (remdups (map (\<lambda>t. \<lfloor>t * 10\<rfloor>) ts)))"
    "distinct (sort (remdups (map (\<lambda>t. \<lfloor>t * 10\<rfloor>) ts)))"
    "set (sort (map fst tw)) = set (sort (remdups (map (\<lambda>t. \<lfloor>t * 10\<rfloor>) ts)))"
    using d ks by simp_all
  then have eq: "sort (map fst tw) = sort (remdups (map (\<lambda>t. \<lfloor>t * 10\<rfloor>) ts))"
    by (metis sorted_distinct_set_unique)
  have ne: "filter (\<lambda>k. spec_bucket ts temps k \<noteq> []) (sort (remdups (map (\<lambda>t. \<lfloor>t * 10\<rfloor>) ts)))
      = sort (remdups (map (\<lambda>t. \<lfloor>t * 10\<rfloor>) ts))"
    using spec_bucket_nonempty [OF len] by (auto simp: filter_id_conv)
  show ?thesis
    by (simp add: window_averages_def windows_loop_eq g eq ne spec_window_averages_def Let_def)
qed

subsection \<open>The loops of the two processors\<close>

lemma idp_loop_windows:
  "windows_ok (idp_time_stamps st) (idp_temperature st) (idp_temp_windows st) \<Longrightarrow>
   windows_ok (idp_time_stamps (idp_loop calib n lines st)) (idp_temperature (idp_loop calib n lines st))
     (idp_temp_windows (idp_loop calib n lines st))"
proof (induction lines arbitrary: n st)
  case Nil
  then show ?case by simp
next
  case (Cons line lines)
  have "windows_ok (idp_time_stamps (idp_line calib n line st)) (idp_temperature (idp_line calib n line st))
     (idp_temp_windows (idp_line calib n line st))"
    using idp_line_cases [of calib n line st] Cons.prems
      windows_ok_append [of "idp_time_stamps st" "idp_temperature st" "idp_temp_windows st" "real n * 0.005"]
    by auto
  then show ?case
    by (simp add: Cons.IH)
qed

lemma idp_records_Cons:
  "idp_records (line # lines) =
     (case idp_parse line of Inr parts \<Rightarrow> [parts] | Inl e \<Rightarrow> []) @ idp_records lines"
  by (simp add: idp_records_def)

lemma idp_loop_channels:
  assumes wf: "well_formed calib"
  shows "length (idp_accel st) = 3 \<Longrightarrow> length (idp_gyro st) = 3 \<Longrightarrow>
     idp_accel (idp_loop calib n lines st) =
       map (\<lambda>i. idp_accel st ! i @
                 map (\<lambda>p. (p ! i - accel_bias calib ! i) * accel_scale calib ! i) (idp_records lines)) [0, 1, 2] \<and>
     idp_gyro (idp_loop calib n lines st) =
       map (\<lambda>i. idp_gyro st ! i @
                 map (\<lambda>p. p ! (i + 3) - gyro_bias calib ! i) (idp_records lines)) [0, 1, 2] \<and>
     idp_temperature (idp_loop calib n lines st) =
       idp_temperature st @ map (\<lambda>p. p ! 6) (idp_records lines)"
proof (induction lines arbitrary: n st)
  case Nil
  from three_channels [OF Nil(1)] three_channels [OF Nil(2)] show ?case
    by (auto simp: idp_records_def)
next
  case (Cons line lines)
  show ?case
  proof (cases "idp_parse line")
    case (Inl e)
    with Cons show ?thesis
      by (simp add: idp_line_invalid idp_records_Cons)
  next
    case (Inr parts)
    note v = idp_line_valid [OF Inr wf Cons.prems, of n]
    have l: "length (idp_accel (idp_line calib n line st)) = 3"
      "length (idp_gyro (idp_line calib n line st)) = 3"
      unfolding v by simp_all
    from Cons.IH [OF l, of "Suc n"] show ?thesis
      unfolding idp_loop.simps idp_records_Cons Inr
      by (simp add: v)
  qed
qed

lemma pi_store_effect:
  assumes "pi_store calib r st = Inr st'"
  shows "pi_time_stamps st' = pi_time_stamps st @ [real (pi_valid_line_count st) * 0.005] \<and>
         pi_temperature st' = pi_temperature st @ [temp r] \<and>
         pi_temp_windows st' =
           dd_append (py_trunc (real (pi_valid_line_count st) * 0.005 * 10)) (temp r) (pi_temp_windows st)"
  using assms by (auto simp: pi_store_def bnd_def Let_def split: sum.splits)

lemma pi_row_windows:
  assumes "pi_row calib parts st = Inr st'"
    and "windows_ok (pi_time_stamps st) (pi_temperature st) (pi_temp_windows st)"
  shows "windows_ok (pi_time_stamps st') (pi_temperature st') (pi_temp_windows st')"
proof (cases "st' = st")
  case True
  with assms(2) show ?thesis by simp
next
  case False
  with assms(1) obtain r where "pi_store calib r st = Inr st'"
    by (auto simp: pi_row_def pi_body_def bnd_def split: if_splits sum.splits)
  from pi_store_effect [OF this] windows_ok_append [OF assms(2), of "real (pi_valid_line_count st) * 0.005"]
  show ?thesis by simp
qed

lemma pi_loop_windows:
  "pi_loop calib rows st = Inr st' \<Longrightarrow>
   windows_ok (pi_time_stamps st) (pi_temperature st) (pi_temp_windows st) \<Longrightarrow>
   windows_ok (pi_time_stamps st') (pi_temperature st') (pi_temp_windows st')"
proof (induction rows arbitrary: st)
  case Nil
  then show ?case by simp
next
  case (Cons parts rows)
  from Cons.prems(1) obtain st1 where r: "pi_row calib parts st = Inr st1"
    and l: "pi_loop calib rows st1 = Inr st'"
    by (cases "pi_row calib parts st") auto
  from Cons.IH [OF l pi_row_windows [OF r Cons.prems(2)]] show ?case .
qed

lemma pi_records_Cons:
  "pi_records (parts # rows) =
     (if length parts = 14 then (case pi_convert parts of Inr r \<Rightarrow> [r] | Inl e \<Rightarrow> []) else [])
     @ pi_records rows"
  by (simp add: pi_records_def)

lemma pi_loop_fold:
  assumes wf: "well_formed calib"
  shows "pi_shape st \<Longrightarrow>
    pi_loop calib rows st = Inr (foldl (\<lambda>s r. pi_sample calib r s) st (pi_records rows))"
proof (induction rows arbitrary: st)
  case Nil
  show ?case by (simp add: pi_records_def)
next
  case (Cons parts rows)
  note rc = pi_row_cases [OF wf Cons.prems, of parts]
  show ?case
  proof (cases "length parts = 14")
    case False
    with rc Cons show ?thesis by (simp add: pi_records_Cons)
  next
    case True
    show ?thesis
    proof (cases "pi_convert parts")
      case (Inl e)
      with rc True Cons show ?thesis by (simp add: pi_records_Cons)
    next
      case (Inr r)
      with rc True Cons.IH [OF pi_sample_shape, of calib r st] show ?thesis
        by (simp add: pi_records_Cons)
    qed
  qed
qed

lemma pi_fold_channels:
  "pi_shape st \<Longrightarrow>
   pi_accel (foldl (\<lambda>s r. pi_sample calib r s) st recs) =
     map (\<lambda>i. pi_accel st ! i @
               map (\<lambda>r. (accel_raw r ! i - accel_bias calib ! i) * accel_scale calib ! i) recs) [0, 1, 2] \<and>
   pi_gyro (foldl (\<lambda>s r. pi_sample calib r s) st recs) =
     map (\<lambda>i. pi_gyro st ! i @ map (\<lambda>r. gyro_raw r ! i - gyro_bias calib ! i) recs) [0, 1, 2] \<and>
   pi_temperature (foldl (\<lambda>s r. pi_sample calib r s) st recs) = pi_temperature st @ map temp recs \<and>
   pi_time_stamps (foldl (\<lambda>s r. pi_sample calib r s) st recs) =
     pi_time_stamps st @ map (\<lambda>k. real (pi_valid_line_count st + k) * 0.005) [0..<length recs]"
proof (induction recs arbitrary: st)
  case Nil
  then have "length (pi_accel st) = 3" "length (pi_gyro st) = 3"
    by (simp_all add: pi_shape_def)
  from three_channels [OF this(1)] three_channels [OF this(2)] show ?case
    by auto
next
  case (Cons r recs)
  have m: "map (\<lambda>k. real (pi_valid_line_count st + k) * 0.005) [0..<length (r # recs)] =
      (real (pi_valid_line_count st) * 0.005) #
      map (\<lambda>k. real (pi_valid_line_count (pi_sample calib r st) + k) * 0.005) [0..<length recs]"
    by (simp add: upt_conv_Cons map_Suc_upt [symmetric] pi_sample_def del: upt_Suc)
  from Cons.IH [OF pi_sample_shape, of calib r st] show ?case
    unfolding m by (simp add: pi_sample_def)
qed

subsection \<open>Calibration\<close>

lemma idp_shape_init: "length (idp_accel idp_init) = 3" "length (idp_gyro idp_init) = 3"
  by (simp_all add: idp_init_def)

text \<open>
  Claim C3. Under a calibration with its three entries per list, the accelerometer channel
  \<open>i\<close> of either processor holds \<open>(raw[i] - accel_bias[i]) * accel_scale[i]\<close> for each valid
  record, in order, and the gyroscope channel \<open>i\<close> holds \<open>raw[i] - gyro_bias[i]\<close>, with no
  scale; the temperature is stored as read.
\<close>

theorem calibration_applied:
  assumes "well_formed calib"
  shows "idp_accel (idp_loop calib 0 lines idp_init) =
           map (\<lambda>i. map (\<lambda>p. (p ! i - accel_bias calib ! i) * accel_scale calib ! i) (idp_records lines))
             [0, 1, 2] \<and>
         idp_gyro (idp_loop calib 0 lines idp_init) =
           map (\<lambda>i. map (\<lambda>p. p ! (i + 3) - gyro_bias calib ! i) (idp_records lines)) [0, 1, 2] \<and>
         idp_temperature (idp_loop calib 0 lines idp_init) = map (\<lambda>p. p ! 6) (idp_records lines) \<and>
         (\<exists>st. pi_loop calib rows pi_init = Inr st \<and>
            pi_accel st =
              map (\<lambda>i. map (\<lambda>r. (accel_raw r ! i - accel_bias calib ! i) * accel_scale calib ! i)
                           (pi_records rows)) [0, 1, 2] \<and>
            pi_gyro st =
              map (\<lambda>i. map (\<lambda>r. gyro_raw r ! i - gyro_bias calib ! i) (pi_records rows)) [0, 1, 2] \<and>
            pi_temperature st = map temp (pi_records rows))"
proof -
  from idp_loop_channels [OF assms idp_shape_init, of 0 lines]
  have a: "idp_accel (idp_loop calib 0 lines idp_init) =
           map (\<lambda>i. map (\<lambda>p. (p ! i - accel_bias calib ! i) * accel_scale calib ! i) (idp_records lines))
             [0, 1, 2] \<and>
         idp_gyro (idp_loop calib 0 lines idp_init) =
           map (\<lambda>i. map (\<lambda>p. p ! (i + 3) - gyro_bias calib ! i) (idp_records lines)) [0, 1, 2] \<and>
         idp_temperature (idp_loop calib 0 lines idp_init) = map (\<lambda>p. p ! 6) (idp_records lines)"
    by (simp add: idp_init_def)
  from pi_fold_channels [OF pi_shape_init, of calib "pi_records rows"]
  have b: "pi_accel (foldl (\<lambda>s r. pi_sample calib r s) pi_init (pi_records rows)) =
              map (\<lambda>i. map (\<lambda>r. (accel_raw r ! i - accel_bias calib ! i) * accel_scale calib ! i)
                           (pi_records rows)) [0, 1, 2] \<and>
            pi_gyro (foldl (\<lambda>s r. pi_sample calib r s) pi_init (pi_records rows)) =
              map (\<lambda>i. map (\<lambda>r. gyro_raw r ! i - gyro_bias calib ! i) (pi_records rows)) [0, 1, 2] \<and>
            pi_temperature (foldl (\<lambda>s r. pi_sample calib r s) pi_init (pi_records rows)) =
              map temp (pi_records rows)"
    by (simp add: pi_init_def)
  from a b pi_loop_fold [OF assms pi_shape_init, of rows] show ?thesis
    by blast
qed

lemma idp_records_example: "idp_records [example_line] = [[3, 0, 0, 1, 1, 1, 25]]"
  by (simp add: idp_records_def idp_parse_example)

lemma pi_records_example:
  "pi_records [example_row14] =
     [\<lparr>accel_raw = [3, 0, 0], gyro_raw = [1, 1, 1], temp = 25,
       accel_filt_raw = [3, 0, 0], gyro_filt_raw = [1, 1, 1], temp_filt_raw = 25\<rparr>]"
  by (simp add: pi_records_def pi_convert_example length_example_row14)

text \<open>The worked example of the specification: bias \<open>[1,0,0]\<close>, scale \<open>[2,1,1]\<close>, gyroscope
  bias \<open>[0,0,0]\<close> and the raw record \<open>(3,0,0, 1,1,1, 25)\<close> give the accelerometer values
  \<open>(4,0,0)\<close>, the gyroscope values \<open>(1,1,1)\<close> and the temperature 25, in both processors.\<close>

theorem calibration_applied_witness:
  "well_formed example_calibration \<and>
   idp_accel (idp_loop example_calibration 0 [example_line] idp_init) = [[4], [0], [0]] \<and>
   idp_gyro (idp_loop example_calibration 0 [example_line] idp_init) = [[1], [1], [1]] \<and>
   idp_temperature (idp_loop example_calibration 0 [example_line] idp_init) = [25] \<and>
   map_sum id pi_accel (pi_loop example_calibration [example_row14] pi_init) = Inr [[4], [0], [0]] \<and>
   map_sum id pi_gyro (pi_loop example_calibration [example_row14] pi_init) = Inr [[1], [1], [1]] \<and>
   map_sum id pi_temperature (pi_loop example_calibration [example_row14] pi_init) = Inr [25]"
proof -
  note t = calibration_applied [OF well_formed_example, of "[example_line]" "[example_row14]"]
  from t obtain st where st: "pi_loop example_calibration [example_row14] pi_init = Inr st"
    and "pi_accel st =
              map (\<lambda>i. map (\<lambda>r. (accel_raw r ! i - accel_bias example_calibration ! i) * accel_scale example_calibration ! i)
                           (pi_records [example_row14])) [0, 1, 2]"
    and "pi_gyro st =
              map (\<lambda>i. map (\<lambda>r. gyro_raw r ! i - gyro_bias example_calibration ! i) (pi_records [example_row14])) [0, 1, 2]"
    and "pi_temperature st = map temp (pi_records [example_row14])"
    by blast
  then have p: "pi_accel st = [[4], [0], [0]]" "pi_gyro st = [[1], [1], [1]]" "pi_temperature st = [25]"
    by (simp_all add: pi_records_example example_calibration_def)
  from t have
    "idp_accel (idp_loop example_calibration 0 [example_line] idp_init) = [[4], [0], [0]]"
    "idp_gyro (idp_loop example_calibration 0 [example_line] idp_init) = [[1], [1], [1]]"
    "idp_temperature (idp_loop example_calibration 0 [example_line] idp_init) = [25]"
    by (simp_all add: idp_records_example example_calibration_def)
  with p show ?thesis
    unfolding st by (simp add: well_formed_example)
qed

subsection \<open>Windowed aggregation\<close>

lemma idp_windows_ok:
  "windows_ok (idp_time_stamps (idp_loop calib 0 lines idp_init))
     (idp_temperature (idp_loop calib 0 lines idp_init))
     (idp_temp_windows (idp_loop calib 0 lines idp_init))"
  by (rule idp_loop_windows) (simp add: idp_init_def windows_ok_empty)

lemma pi_windows_ok:
  "pi_loop calib rows pi_init = Inr st \<Longrightarrow>
   windows_ok (pi_time_stamps st) (pi_temperature st) (pi_temp_windows st)"
  by (erule pi_loop_windows) (simp add: pi_init_def windows_ok_empty)

lemma idp_result_avg:
  assumes "idp_process_imu_data calib lines = Inr res"
  shows "idp_out_temp_avg res = window_averages (\<lambda>x. x) (idp_temp_windows (idp_loop calib 0 lines idp_init)) \<and>
         idp_out_temp_raw res = (idp_time_stamps (idp_loop calib 0 lines idp_init),
                                 idp_temperature (idp_loop calib 0 lines idp_init))"
  using assms by (auto simp: idp_process_imu_data_def Let_def bnd_def split: sum.splits)

lemma pi_result_avg:
  assumes "pi_process_imu_data calib rows = Inr res"
  shows "\<exists>st. pi_loop calib (tl rows) pi_init = Inr st \<and>
           pi_out_temp_avg res = window_averages real_of_int (pi_temp_windows st) \<and>
           pi_out_temp_raw res = (pi_time_stamps st, pi_temperature st)"
  using assms
  by (auto simp: pi_process_imu_data_def pi_finish_def Let_def bnd_def split: sum.splits list.splits)

text \<open>
  Claim C5. In both processors the dictionary holds, under each index \<open>k\<close>, the
  temperatures of the samples whose timestamp \<open>t\<close> has \<open>floor (t * 10) = k\<close>, in arrival
  order; and the averaged points computed after the input has been read are those of
  the specification: one point for each window that has a sample, in ascending order of
  the index, at the centre \<open>k * 0.1 + 0.05\<close>, none for an empty window. The same holds of the
  points in the result of a run that returns.
\<close>

theorem temperature_windows:
  "(\<forall>k. dd_get (idp_temp_windows (idp_loop calib 0 lines idp_init)) k =
         spec_bucket (idp_time_stamps (idp_loop calib 0 lines idp_init))
           (idp_temperature (idp_loop calib 0 lines idp_init)) k) \<and>
   window_averages (\<lambda>x. x) (idp_temp_windows (idp_loop calib 0 lines idp_init)) =
     spec_window_averages (\<lambda>x. x) (idp_time_stamps (idp_loop calib 0 lines idp_init))
       (idp_temperature (idp_loop calib 0 lines idp_init)) \<and>
   (\<forall>res. idp_process_imu_data calib lines = Inr res \<longrightarrow>
      idp_out_temp_avg res =
        spec_window_averages (\<lambda>x. x) (fst (idp_out_temp_raw res)) (snd (idp_out_temp_raw res))) \<and>
   (\<forall>st. pi_loop calib rows pi_init = Inr st \<longrightarrow>
      (\<forall>k. dd_get (pi_temp_windows st) k = spec_bucket (pi_time_stamps st) (pi_temperature st) k) \<and>
      window_averages real_of_int (pi_temp_windows st) =
        spec_window_averages real_of_int (pi_time_stamps st) (pi_temperature st)) \<and>
   (\<forall>res. pi_process_imu_data calib rows = Inr res \<longrightarrow>
      pi_out_temp_avg res =
        spec_window_averages real_of_int (fst (pi_out_temp_raw res)) (snd (pi_out_temp_raw res)))"
proof -
  note i = idp_windows_ok [of calib lines]
  have a: "dd_get (idp_temp_windows (idp_loop calib 0 lines idp_init)) k =
         spec_bucket (idp_time_stamps (idp_loop calib 0 lines idp_init))
           (idp_temperature (idp_loop calib 0 lines idp_init)) k" for k
    using i by (simp add: windows_ok_def)
  note b = window_averages_spec [OF i, of "\<lambda>x. x"]
  have c: "idp_out_temp_avg res =
        spec_window_averages (\<lambda>x. x) (fst (idp_out_temp_raw res)) (snd (idp_out_temp_raw res))"
    if "idp_process_imu_data calib lines = Inr res" for res
    using idp_result_avg [OF that] b by simp
  have d: "(\<forall>k. dd_get (pi_temp_windows st) k = spec_bucket (pi_time_stamps st) (pi_temperature st) k) \<and>
      window_averages real_of_int (pi_temp_windows st) =
        spec_window_averages real_of_int (pi_time_stamps st) (pi_temperature st)"
    if "pi_loop calib rows pi_init = Inr st" for st
    using pi_windows_ok [OF that] window_averages_spec [OF pi_windows_ok [OF that], of real_of_int]
    by (simp add: windows_ok_def)
  have e: "pi_out_temp_avg res =
        spec_window_averages real_of_int (fst (pi_out_temp_raw res)) (snd (pi_out_temp_raw res))"
    if "pi_process_imu_data calib rows = Inr res" for res
  proof -
    from pi_result_avg [OF that] obtain st where st: "pi_loop calib (tl rows) pi_init = Inr st"
      and r: "pi_out_temp_avg res = window_averages real_of_int (pi_temp_windows st)"
        "pi_out_temp_raw res = (pi_time_stamps st, pi_temperature st)"
      by blast
    from window_averages_spec [OF pi_windows_ok [OF st], of real_of_int] r show ?thesis
      by simp
  qed
  from a b c d e show ?thesis by blast
qed

lemma idp_two_lines:
  "idp_time_stamps (idp_loop default_calibration 0 [example_line, float_temp_line] idp_init) = [0, 0.005] \<and>
   idp_temperature (idp_loop default_calibration 0 [example_line, float_temp_line] idp_init) = [25, 25.5]"
proof -
  note v1 = idp_line_valid [OF idp_parse_example well_formed_default idp_shape_init, of 0]
  have l: "length (idp_accel (idp_line default_calibration 0 example_line idp_init)) = 3"
    "length (idp_gyro (idp_line default_calibration 0 example_line idp_init)) = 3"
    unfolding v1 by simp_all
  note v2 = idp_line_valid [OF idp_parse_float_temp well_formed_default l, of 1]
  have "idp_loop default_calibration 0 [example_line, float_temp_line] idp_init =
      idp_line default_calibration 1 float_temp_line (idp_line default_calibration 0 example_line idp_init)"
    by simp
  then show ?thesis
    unfolding v2 unfolding v1 by (simp add: idp_init_def)
qed

text \<open>Two records, stamped 0 and 0.005, fall into window 0: one point, their mean 25.25,
  at 0.05.\<close>

theorem temperature_windows_witness:
  "window_averages (\<lambda>x. x)
     (idp_temp_windows (idp_loop default_calibration 0 [example_line, float_temp_line] idp_init)) =
   ([0.05], [25.25])"
proof -
  from temperature_windows [of default_calibration "[example_line, float_temp_line]" "[]"]
  have "window_averages (\<lambda>x. x)
     (idp_temp_windows (idp_loop default_calibration 0 [example_line, float_temp_line] idp_init)) =
     spec_window_averages (\<lambda>x. x) [0, 0.005] [25, 25.5]"
    unfolding idp_two_lines [THEN conjunct1] idp_two_lines [THEN conjunct2] by blast
  also have "\<dots> = ([0.05], [25.25])"
    by (simp add: spec_window_averages_def spec_bucket_def)
  finally show ?thesis .
qed

subsection \<open>Timestamps of \<^verbatim>\<open>process_imu.py\<close>\<close>

text \<open>The sibling of the script Claim C1 fails on: here the record number \<open>n\<close> among the
  valid ones is stamped \<open>n * 0.005\<close>, and a row that is not a valid record, put anywhere,
  changes neither the records nor their timestamps.\<close>

lemma pi_timestamps_count_valid_rows:
  assumes "well_formed calib"
  shows "\<exists>st. pi_loop calib rows pi_init = Inr st \<and>
           pi_time_stamps st = map (\<lambda>n. real n * 0.005) [0..<length (pi_records rows)]"
proof -
  from pi_fold_channels [OF pi_shape_init, of calib "pi_records rows"]
  have "pi_time_stamps (foldl (\<lambda>s r. pi_sample calib r s) pi_init (pi_records rows)) =
      map (\<lambda>n. real n * 0.005) [0..<length (pi_records rows)]"
    by (simp add: pi_init_def)
  with pi_loop_fold [OF assms pi_shape_init, of rows] show ?thesis
    by simp
qed

lemma pi_records_insert_invalid:
  assumes "pi_records [bad] = []"
  shows "pi_records (before @ bad # after) = pi_records (before @ after)"
  using assms by (simp add: pi_records_def)

end
